theory Spec2Isabelle
  imports Complex_Main "HOL-Library.Multiset"
begin

section \<open>Python values, exceptions and frames\<close>

text \<open>
  The objects that \<^verbatim>\<open>response.json()\<close> hands to the two fetch functions of
  \<^verbatim>\<open>app.py\<close>. A \<open>JObj\<close> holds the items of a Python dict (keys distinct, in
  insertion order); a character of a \<open>string\<close> stands for one code point, since the
  code only compares, counts and digit-parses strings. \<open>JFloat\<close> carries the value of
  a finite float.
\<close>

datatype json =
    JNull
  | JBool bool
  | JInt int
  | JFloat real
  | JStr string
  | JArr "json list"
  | JObj "(string \<times> json) list"

text \<open>
  The exception classes that the modelled code can raise or catch. The last one,
  \<open>ConnectionError\<close>, is the specification's error of a manager without a connection;
  no statement of \<^verbatim>\<open>app.py\<close> raises it.
\<close>

datatype exc =
    RequestException
  | HTTPError nat
  | JSONDecodeError
  | TypeError
  | ValueError
  | IndexError
  | KeyError string
  | AttributeError string
  | StringDataRightTruncation
  | NumericValueOutOfRange
  | UndefinedTable
  | InFailedSqlTransaction
  | SequenceGeneratorLimitExceeded
  | DatabaseError
  | ConnectionError

text \<open>A pandas DataFrame, as far as the code looks at it: column labels and rows.\<close>

datatype 'r frame = Frame (columns: "string list") (rows: "'r list")

text \<open>
  What \<^verbatim>\<open>requests.get\<close> brings back: no response at all, or a status code with a
  body that parses as JSON (\<open>Some\<close>) or does not (\<open>None\<close>). The URL, and with it the
  country code, only selects the response.
\<close>

datatype http = ConnectionFailed | Response nat "json option"

definition http_json :: "http \<Rightarrow> exc + json" where
  "http_json r =
     (case r of
        ConnectionFailed \<Rightarrow> Inl RequestException
      | Response status body \<Rightarrow>
          if 400 \<le> status \<and> status < 600 then Inl (HTTPError status)
          else (case body of None \<Rightarrow> Inl JSONDecodeError | Some d \<Rightarrow> Inr d))"

definition exc_bind :: "exc + 'a \<Rightarrow> ('a \<Rightarrow> exc + 'b) \<Rightarrow> exc + 'b" where
  "exc_bind m f = (case m of Inl e \<Rightarrow> Inl e | Inr v \<Rightarrow> f v)"

subsection \<open>Built-in operations on Python values\<close>

fun py_iter :: "json \<Rightarrow> exc + json list" where
  "py_iter (JArr xs) = Inr xs"
| "py_iter (JObj kvs) = Inr (map (\<lambda>kv. JStr (fst kv)) kvs)"
| "py_iter (JStr s) = Inr (map (\<lambda>c. JStr [c]) s)"
| "py_iter _ = Inl TypeError"

fun py_get :: "json \<Rightarrow> string \<Rightarrow> json \<Rightarrow> exc + json" where
  "py_get (JObj kvs) k d = Inr (case map_of kvs k of None \<Rightarrow> d | Some v \<Rightarrow> v)"
| "py_get _ k d = Inl (AttributeError ''get'')"

fun py_len :: "json \<Rightarrow> exc + nat" where
  "py_len (JArr xs) = Inr (length xs)"
| "py_len (JObj kvs) = Inr (length kvs)"
| "py_len (JStr s) = Inr (length s)"
| "py_len _ = Inl TypeError"

text \<open>\<^verbatim>\<open>data[1]\<close>: the integer subscript \<open>1\<close>.\<close>

fun py_index1 :: "json \<Rightarrow> exc + json" where
  "py_index1 (JArr xs) = (if 1 < length xs then Inr (xs ! 1) else Inl IndexError)"
| "py_index1 (JStr s) = (if 1 < length s then Inr (JStr [s ! 1]) else Inl IndexError)"
| "py_index1 (JObj kvs) = Inl (KeyError ''1'')"
| "py_index1 _ = Inl TypeError"

text \<open>\<^verbatim>\<open>entry["value"]\<close>: a string subscript.\<close>

fun py_getitem :: "json \<Rightarrow> string \<Rightarrow> exc + json" where
  "py_getitem (JObj kvs) k = (case map_of kvs k of None \<Rightarrow> Inl (KeyError k) | Some v \<Rightarrow> Inr v)"
| "py_getitem _ k = Inl TypeError"

fun is_list :: "json \<Rightarrow> bool" where
  "is_list (JArr xs) = True"
| "is_list _ = False"

text \<open>
  \<^verbatim>\<open>int(x)\<close>. On a string: surrounding whitespace is stripped, one sign is allowed,
  and the digits may be grouped by single underscores. The whitespace that \<^verbatim>\<open>int\<close>
  strips is tab, line feed, vertical tab, form feed, carriage return and space, and,
  of the code points up to 255, U+0085 and U+00A0; the separators U+001C to U+001F are
  not stripped. A string with more than 4300 digits is refused (the default limit of the
  interpreter). Code points above 255 are outside the model.
\<close>

definition is_space :: "char \<Rightarrow> bool" where
  "is_space c = (of_char c \<in> {9, 10, 11, 12, 13, 32, 133, 160 :: nat})"

definition max_str_digits :: nat where
  "max_str_digits = 4300"

definition is_digit :: "char \<Rightarrow> bool" where
  "is_digit c = (48 \<le> (of_char c :: nat) \<and> (of_char c :: nat) \<le> 57)"

definition digit_val :: "char \<Rightarrow> int" where
  "digit_val c = int (of_char c) - 48"

fun parse_digits :: "string \<Rightarrow> int \<Rightarrow> bool \<Rightarrow> int option" where
  "parse_digits [] acc prev = (if prev then Some acc else None)"
| "parse_digits (c # cs) acc prev =
     (if is_digit c then parse_digits cs (10 * acc + digit_val c) True
      else if c = CHR ''_'' \<and> prev then parse_digits cs acc False
      else None)"

definition strip :: "string \<Rightarrow> string" where
  "strip s = rev (dropWhile is_space (rev (dropWhile is_space s)))"

definition int_of_str :: "string \<Rightarrow> int option" where
  "int_of_str s =
     (if max_str_digits < length (filter is_digit s) then None
      else
        (case strip s of
           [] \<Rightarrow> None
         | c # cs \<Rightarrow>
             if c = CHR ''-'' then map_option uminus (parse_digits cs 0 False)
             else if c = CHR ''+'' then parse_digits cs 0 False
             else parse_digits (c # cs) 0 False))"

fun py_int :: "json \<Rightarrow> exc + int" where
  "py_int (JInt i) = Inr i"
| "py_int (JBool b) = Inr (if b then 1 else 0)"
| "py_int (JFloat r) = Inr (if 0 \<le> r then \<lfloor>r\<rfloor> else \<lceil>r\<rceil>)"
| "py_int (JStr s) = (case int_of_str s of None \<Rightarrow> Inl ValueError | Some i \<Rightarrow> Inr i)"
| "py_int _ = Inl TypeError"

section \<open>fetch_api_data\<close>

type_synonym country_tuple = "json \<times> json \<times> json \<times> json \<times> json \<times> json"

text \<open>The tuple expression appended in the loop body; its components are evaluated left to right.\<close>

definition country_of_item :: "json \<Rightarrow> exc + country_tuple" where
  "country_of_item item =
     exc_bind (py_get item ''name'' (JObj [])) (\<lambda>nm.
     exc_bind (py_get nm ''common'' (JStr ''N/A'')) (\<lambda>common.
     exc_bind (py_get item ''cca2'' (JStr [])) (\<lambda>c2.
     exc_bind (py_get item ''cca3'' (JStr [])) (\<lambda>c3.
     exc_bind (py_get item ''region'' (JStr ''Other'')) (\<lambda>reg.
     exc_bind (py_get item ''population'' (JInt 0)) (\<lambda>pop.
     exc_bind (py_get item ''area'' (JInt 0)) (\<lambda>ar.
       Inr (common, c2, c3, reg, pop, ar))))))))"

fun countries_loop :: "json list \<Rightarrow> country_tuple list \<Rightarrow> exc + country_tuple list" where
  "countries_loop [] countries_list = Inr countries_list"
| "countries_loop (item # rest) countries_list =
     (case country_of_item item of
        Inl e \<Rightarrow> Inl e
      | Inr t \<Rightarrow> countries_loop rest (countries_list @ [t]))"

definition country_columns :: "string list" where
  "country_columns = [''name'', ''cca2'', ''cca3'', ''region'', ''population'', ''area'']"

definition fetch_api_try :: "http \<Rightarrow> exc + country_tuple frame" where
  "fetch_api_try r =
     exc_bind (http_json r) (\<lambda>data.
     exc_bind (py_iter data) (\<lambda>items.
     exc_bind (countries_loop items []) (\<lambda>countries_list.
       Inr (Frame country_columns countries_list))))"

text \<open>
  The result is the returned frame together with the exception shown through
  \<^verbatim>\<open>st.error\<close>, if any.
\<close>

definition fetch_api_data :: "http \<Rightarrow> country_tuple frame \<times> exc option" where
  "fetch_api_data r =
     (case fetch_api_try r of
        Inr df \<Rightarrow> (df, None)
      | Inl e \<Rightarrow> (Frame [] [], Some e))"

text \<open>
  A country object as the primary source documents it: a JSON object whose \<open>name\<close>,
  when present, is an object itself.
\<close>

fun country_object :: "json \<Rightarrow> bool" where
  "country_object (JObj kvs) =
     (case map_of kvs ''name'' of None \<Rightarrow> True | Some (JObj nm) \<Rightarrow> True | Some _ \<Rightarrow> False)"
| "country_object _ = False"

text \<open>
  The normalisation as the specification words it: each field of the object, or its
  default when the key is absent.
\<close>

fun field_or :: "json \<Rightarrow> string \<Rightarrow> json \<Rightarrow> json" where
  "field_or (JObj kvs) k d = (case map_of kvs k of None \<Rightarrow> d | Some v \<Rightarrow> v)"
| "field_or _ k d = d"

definition normalize_spec :: "json \<Rightarrow> country_tuple" where
  "normalize_spec item =
     (field_or (field_or item ''name'' (JObj [])) ''common'' (JStr ''N/A''),
      field_or item ''cca2'' (JStr []),
      field_or item ''cca3'' (JStr []),
      field_or item ''region'' (JStr ''Other''),
      field_or item ''population'' (JInt 0),
      field_or item ''area'' (JInt 0))"

section \<open>get_population_world_bank\<close>

record history_point =
  hist_country :: json
  hist_year :: int
  hist_population :: json

text \<open>
  The loop over \<^verbatim>\<open>data[1]\<close>: an entry whose \<open>value\<close> is \<open>None\<close> is skipped, any
  other entry is appended as a dict with the keys \<open>country\<close>, \<open>year\<close>, \<open>population\<close>.
\<close>

definition history_row :: "json \<Rightarrow> exc + history_point" where
  "history_row entry =
     exc_bind (py_getitem entry ''country'') (\<lambda>c.
     exc_bind (py_getitem c ''value'') (\<lambda>label.
     exc_bind (py_getitem entry ''date'') (\<lambda>d.
     exc_bind (py_int d) (\<lambda>y.
     exc_bind (py_getitem entry ''value'') (\<lambda>v.
       Inr \<lparr>hist_country = label, hist_year = y, hist_population = v\<rparr>)))))"

fun history_loop :: "json list \<Rightarrow> history_point list \<Rightarrow> exc + history_point list" where
  "history_loop [] rs = Inr rs"
| "history_loop (entry # rest) rs =
     (case py_getitem entry ''value'' of
        Inl e \<Rightarrow> Inl e
      | Inr v \<Rightarrow>
          if v \<noteq> JNull then
            (case history_row entry of
               Inl e \<Rightarrow> Inl e
             | Inr row \<Rightarrow> history_loop rest (rs @ [row]))
          else history_loop rest rs)"

text \<open>
  \<^verbatim>\<open>pd.DataFrame(rows)\<close> on a list of dicts: the columns are the keys of the dicts, so
  a frame built from no dict has no column.
\<close>

definition history_frame :: "history_point list \<Rightarrow> history_point frame" where
  "history_frame rs =
     Frame (if rs = [] then [] else [''country'', ''year'', ''population'']) rs"

text \<open>
  \<^verbatim>\<open>sort_values("year")\<close> raises \<open>KeyError\<close> on a frame without that column. Its
  default sort is not stable, so the order of rows with equal years is the sorting
  routine's; the routine is the parameter \<open>srt\<close>.
\<close>

type_synonym 'r sorter = "('r \<Rightarrow> int) \<Rightarrow> 'r list \<Rightarrow> 'r list"

definition sort_values_year :: "history_point sorter \<Rightarrow> history_point frame \<Rightarrow> exc + history_point frame" where
  "sort_values_year srt df =
     (if ''year'' \<in> set (columns df) then Inr (Frame (columns df) (srt hist_year (rows df)))
      else Inl (KeyError ''year''))"

definition world_bank_try :: "history_point sorter \<Rightarrow> http \<Rightarrow> exc + history_point frame option" where
  "world_bank_try srt r =
     exc_bind (http_json r) (\<lambda>data.
     exc_bind (py_len data) (\<lambda>n.
       if 1 < n then
         exc_bind (py_index1 data) (\<lambda>second.
           if is_list second then
             exc_bind (py_iter second) (\<lambda>entries.
             exc_bind (history_loop entries []) (\<lambda>rs.
             exc_bind (sort_values_year srt (history_frame rs)) (\<lambda>df.
               Inr (Some df))))
           else Inr None)
       else Inr None))"

text \<open>The returned value, and the exception shown through \<^verbatim>\<open>st.error\<close>, if any.\<close>

definition get_population_world_bank ::
    "history_point sorter \<Rightarrow> http \<Rightarrow> history_point frame option \<times> exc option" where
  "get_population_world_bank srt r =
     (case world_bank_try srt r of
        Inr res \<Rightarrow> (res, None)
      | Inl e \<Rightarrow> (None, Some e))"

text \<open>
  A sorting routine: it returns a permutation of its input that ascends in the key.
\<close>

definition sorts :: "'r sorter \<Rightarrow> bool" where
  "sorts srt = (\<forall>k xs. mset (srt k xs) = mset xs \<and> sorted (map k (srt k xs)))"

text \<open>
  An entry of a well-formed response: an object with a \<open>value\<close>, and, when the value is
  not null, a \<open>country\<close> object with a \<open>value\<close> label and a \<open>date\<close> that \<^verbatim>\<open>int\<close>
  accepts.
\<close>

definition history_entry :: "json \<Rightarrow> bool" where
  "history_entry entry =
     (case entry of
        JObj kvs \<Rightarrow>
          (case map_of kvs ''value'' of
             None \<Rightarrow> False
           | Some v \<Rightarrow>
               v = JNull \<or>
               ((case map_of kvs ''country'' of
                   Some (JObj ckvs) \<Rightarrow> map_of ckvs ''value'' \<noteq> None
                 | _ \<Rightarrow> False) \<and>
                (case map_of kvs ''date'' of
                   Some d \<Rightarrow> (case py_int d of Inr y \<Rightarrow> True | Inl e \<Rightarrow> False)
                 | None \<Rightarrow> False)))
      | _ \<Rightarrow> False)"

text \<open>
  The specification's mapping of an entry to a HistoryPoint: the entry's own country
  label, its integer-parsed year and its value.
\<close>

definition null_value :: "json \<Rightarrow> bool" where
  "null_value entry = (field_or entry ''value'' JNull = JNull)"

definition point_of :: "json \<Rightarrow> history_point" where
  "point_of entry =
     \<lparr>hist_country = field_or (field_or entry ''country'' JNull) ''value'' JNull,
      hist_year = (case py_int (field_or entry ''date'' JNull) of Inr y \<Rightarrow> y | Inl e \<Rightarrow> 0),
      hist_population = field_or entry ''value'' JNull\<rparr>"

definition surviving :: "json list \<Rightarrow> history_point list" where
  "surviving entries = map point_of (filter (\<lambda>entry. \<not> null_value entry) entries)"

text \<open>The responses with a second element that is a sequence.\<close>

fun has_series :: "json \<Rightarrow> bool" where
  "has_series (JArr (x # JArr entries # rest)) = True"
| "has_series _ = False"

section \<open>DatabaseManager\<close>

text \<open>
  A row of the DataFrame handed to \<^verbatim>\<open>save_data\<close>, and the six data columns of the
  table \<open>countries\<close>. The region may be \<open>NULL\<close>; the query of
  \<^verbatim>\<open>get_aggregated_stats\<close> tests for it. The other columns hold a value in every
  row, as they do in every row written from such a record. The area is the number that
  the Python \<open>int\<close> or finite \<open>float\<close> of the DataFrame denotes.
\<close>

record country_record =
  name :: string
  cca2 :: string
  cca3 :: string
  region :: "string option"
  population :: int
  area :: real

text \<open>
  A stored row: the \<open>SERIAL\<close> id and the data columns. \<open>SERIAL\<close> is a 32-bit integer
  fed by a sequence that ends at \<open>2147483647\<close>.
\<close>

type_synonym stored_row = "nat \<times> country_record"

definition serial_max :: nat where
  "serial_max = 2147483647"

text \<open>
  The committed state of the database: the table (\<open>None\<close> while it does not exist) and
  the next value of its id sequence. A sequence is not transactional: a value drawn is
  never given back. Once the next value exceeds \<open>serial_max\<close> the sequence is
  exhausted.
\<close>

record database =
  countries :: "stored_row list option"
  countries_id_seq :: nat

text \<open>
  A psycopg2 connection is outside a transaction, or inside one with its own view of the
  table, or inside one that a failed statement has aborted.
\<close>

datatype txn = Idle | Active "stored_row list option" | Failed

datatype event = Attempt | Sleep nat | StError

record manager =
  conn :: "txn option"
  events :: "event list"
  server :: database

subsection \<open>Connecting\<close>

text \<open>
  \<open>reachable i\<close> tells whether the call of \<^verbatim>\<open>psycopg2.connect\<close> in round \<open>i\<close> of the
  loop succeeds.
\<close>

fun connect_loop :: "(nat \<Rightarrow> bool) \<Rightarrow> nat list \<Rightarrow> manager \<Rightarrow> manager" where
  "connect_loop reachable [] s = s\<lparr>events := events s @ [StError]\<rparr>"
| "connect_loop reachable (i # rest) s =
     (if reachable i then s\<lparr>conn := Some Idle, events := events s @ [Attempt]\<rparr>
      else connect_loop reachable rest (s\<lparr>events := events s @ [Attempt, Sleep 2]\<rparr>))"

definition connect :: "(nat \<Rightarrow> bool) \<Rightarrow> manager \<Rightarrow> manager" where
  "connect reachable s = connect_loop reachable [0..<5] s"

definition DatabaseManager :: "(nat \<Rightarrow> bool) \<Rightarrow> database \<Rightarrow> manager" where
  "DatabaseManager reachable db = connect reachable \<lparr>conn = None, events = [], server = db\<rparr>"

subsection \<open>Statements and transactions\<close>

text \<open>
  A statement maps the transaction's view of the table and the sequence to their new
  values, or fails.
\<close>

type_synonym statement =
  "stored_row list option \<Rightarrow> nat \<Rightarrow> exc + (stored_row list option \<times> nat)"

text \<open>
  The query of \<^verbatim>\<open>init_db\<close>: \<open>CREATE TABLE IF NOT EXISTS\<close>, with a fresh sequence
  when it creates the table, then \<open>TRUNCATE TABLE\<close>, which leaves the sequence alone.
\<close>

definition create_and_truncate :: statement where
  "create_and_truncate w n = Inr (Some [], if w = None then 1 else n)"

text \<open>
  \<open>VARCHAR(n)\<close>: a longer string is an error, unless the excess is spaces only, which
  are cut off. \<open>BIGINT\<close>: the signed 64-bit range.
\<close>

definition varchar :: "nat \<Rightarrow> string \<Rightarrow> exc + string" where
  "varchar n str =
     (if length str \<le> n then Inr str
      else if \<forall>c \<in> set (drop n str). c = CHR '' '' then Inr (take n str)
      else Inl StringDataRightTruncation)"

definition bigint :: "int \<Rightarrow> exc + int" where
  "bigint i = (if - (2 ^ 63) \<le> i \<and> i < 2 ^ 63 then Inr i else Inl NumericValueOutOfRange)"

text \<open>
  \<open>FLOAT\<close> is a double: it holds the numbers \<open>m * 2 ^ e\<close> with \<open>\<bar>m\<bar> < 2 ^ 53\<close> and
  \<open>- 1074 \<le> e \<le> 971\<close>. Any other number is rounded to the nearest of them, to the one
  with the even \<open>m\<close> when two are equally near; a number that rounds beyond the largest
  double, or to zero, is out of range.
\<close>

definition float8_exact :: "real \<Rightarrow> bool" where
  "float8_exact x =
     (\<exists>m e. \<bar>m\<bar> < 2 ^ 53 \<and> - 1074 \<le> e \<and> e \<le> 971 \<and> x = real_of_int m * 2 powr real_of_int e)"

definition round_half_even :: "real \<Rightarrow> int" where
  "round_half_even y =
     (let f = \<lfloor>y\<rfloor>
      in if y - real_of_int f < 1 / 2 then f
         else if 1 / 2 < y - real_of_int f then f + 1
         else if even f then f else f + 1)"

definition float8_nearest :: "real \<Rightarrow> real" where
  "float8_nearest x =
     (let e = max (\<lfloor>log 2 \<bar>x\<bar>\<rfloor> - 52) (- 1074)
      in real_of_int (round_half_even (x / 2 powr real_of_int e)) * 2 powr real_of_int e)"

definition float8 :: "real \<Rightarrow> exc + real" where
  "float8 x =
     (if float8_exact x then Inr x
      else if 2 ^ 1024 \<le> \<bar>float8_nearest x\<bar> \<or> float8_nearest x = 0
        then Inl NumericValueOutOfRange
      else Inr (float8_nearest x))"

text \<open>
  The values that an \<open>INSERT\<close> stores for a record. The literals are coerced to the
  types of the columns when the statement is planned, in the order of the columns.
\<close>

definition column_values :: "country_record \<Rightarrow> exc + country_record" where
  "column_values r =
     exc_bind (varchar 255 (name r)) (\<lambda>n.
     exc_bind (varchar 10 (cca2 r)) (\<lambda>c2.
     exc_bind (varchar 10 (cca3 r)) (\<lambda>c3.
     exc_bind (case region r of None \<Rightarrow> Inr None
               | Some g \<Rightarrow> exc_bind (varchar 100 g) (\<lambda>g'. Inr (Some g'))) (\<lambda>reg.
     exc_bind (bigint (population r)) (\<lambda>pop.
     exc_bind (float8 (area r)) (\<lambda>ar.
       Inr \<lparr>name = n, cca2 = c2, cca3 = c3, region = reg, population = pop,
            area = ar\<rparr>))))))"

text \<open>
  The \<open>INSERT\<close> of one record: the table has to exist, the values have to fit their
  columns, and only then, when the statement runs, the id is drawn from the sequence,
  which fails once the sequence is exhausted.
\<close>

definition insert_row :: "country_record \<Rightarrow> statement" where
  "insert_row r w n =
     (case w of
        None \<Rightarrow> Inl UndefinedTable
      | Some t \<Rightarrow>
          exc_bind (column_values r) (\<lambda>v.
            if serial_max < n then Inl SequenceGeneratorLimitExceeded
            else Inr (Some (t @ [(n, v)]), Suc n)))"

text \<open>
  \<^verbatim>\<open>cur.execute\<close>: the first statement after a commit opens a transaction; a failing
  statement aborts it, and an aborted transaction refuses every further statement.
\<close>

definition execute :: "manager \<Rightarrow> statement \<Rightarrow> exc option \<times> manager" where
  "execute s stmt =
     (case conn s of
        None \<Rightarrow> (Some (AttributeError ''cursor''), s)
      | Some Failed \<Rightarrow> (Some InFailedSqlTransaction, s)
      | Some c \<Rightarrow>
          (case stmt (case c of Active w \<Rightarrow> w | _ \<Rightarrow> countries (server s))
                     (countries_id_seq (server s)) of
             Inl e \<Rightarrow> (Some e, s\<lparr>conn := Some Failed\<rparr>)
           | Inr (w', n') \<Rightarrow>
               (None, s\<lparr>conn := Some (Active w'),
                         server := (server s)\<lparr>countries_id_seq := n'\<rparr>\<rparr>)))"

definition commit :: "manager \<Rightarrow> manager" where
  "commit s =
     (case conn s of
        Some (Active w) \<Rightarrow> s\<lparr>conn := Some Idle, server := (server s)\<lparr>countries := w\<rparr>\<rparr>
      | Some Failed \<Rightarrow> s\<lparr>conn := Some Idle\<rparr>
      | _ \<Rightarrow> s)"

definition rollback :: "manager \<Rightarrow> manager" where
  "rollback s = (case conn s of None \<Rightarrow> s | Some c \<Rightarrow> s\<lparr>conn := Some Idle\<rparr>)"

subsection \<open>init_db and save_data\<close>

definition init_db :: "manager \<Rightarrow> exc option \<times> manager" where
  "init_db s =
     (case conn s of
        None \<Rightarrow> (Some (AttributeError ''cursor''), s)
      | Some c \<Rightarrow>
          (case execute s create_and_truncate of
             (Some e, s') \<Rightarrow> (Some e, s')
           | (None, s') \<Rightarrow> (None, commit s')))"

text \<open>
  \<^verbatim>\<open>cur.executemany\<close> runs one \<open>INSERT\<close> per tuple and stops at the first that fails.
  psycopg2 refuses a string with a NUL character before it sends anything.
\<close>

definition has_nul :: "country_record \<Rightarrow> bool" where
  "has_nul r =
     (CHR 0x00 \<in> set (name r) \<union> set (cca2 r) \<union> set (cca3 r)
        \<union> (case region r of None \<Rightarrow> {} | Some g \<Rightarrow> set g))"

fun executemany :: "manager \<Rightarrow> country_record list \<Rightarrow> exc option \<times> manager" where
  "executemany s [] = (None, s)"
| "executemany s (r # rest) =
     (if has_nul r then (Some ValueError, s)
      else (case execute s (insert_row r) of
              (Some e, s') \<Rightarrow> (Some e, s')
            | (None, s') \<Rightarrow> executemany s' rest))"

definition save_data :: "manager \<Rightarrow> country_record list \<Rightarrow> exc option \<times> manager" where
  "save_data s df =
     (case init_db s of
        (Some e, s') \<Rightarrow> (Some e, s')
      | (None, s') \<Rightarrow>
          (case conn s' of
             None \<Rightarrow> (Some (AttributeError ''cursor''), s')
           | Some c \<Rightarrow>
               (case executemany s' df of
                  (Some e, s'') \<Rightarrow> (Some e, s'')
                | (None, s'') \<Rightarrow> (None, commit s''))))"

subsection \<open>Reading\<close>

text \<open>
  \<^verbatim>\<open>pd.read_sql_query\<close> on a DBAPI connection: it executes the query, leaves the
  transaction open, and on a failure rolls back and raises its own \<open>DatabaseError\<close>.
\<close>

definition read_sql_query :: "(stored_row list \<Rightarrow> 'a) \<Rightarrow> manager \<Rightarrow> (exc + 'a) \<times> manager" where
  "read_sql_query query s =
     (case conn s of
        None \<Rightarrow> (Inl (AttributeError ''cursor''), s)
      | Some Failed \<Rightarrow> (Inl DatabaseError, rollback s)
      | Some c \<Rightarrow>
          (case (case c of Active w \<Rightarrow> w | _ \<Rightarrow> countries (server s)) of
             None \<Rightarrow> (Inl DatabaseError, rollback s)
           | Some t \<Rightarrow> (Inr (query t), s\<lparr>conn := Some (Active (Some t))\<rparr>)))"

text \<open>
  The query of \<^verbatim>\<open>get_all_data\<close> has no \<open>ORDER BY\<close>: the order of its rows is the
  engine's, here the parameter \<open>scan\<close>.
\<close>

definition get_all_data ::
    "(stored_row list \<Rightarrow> stored_row list) \<Rightarrow> manager \<Rightarrow> (exc + country_record list) \<times> manager" where
  "get_all_data scan s = read_sql_query (\<lambda>t. map snd (scan t)) s"

subsection \<open>The aggregation query\<close>

record region_summary =
  summary_region :: string
  total_population :: int
  largest_country :: "string option"
  largest_population :: "int option"
  smallest_country :: "string option"
  smallest_population :: "int option"

text \<open>\<open>WHERE region IS NOT NULL AND region != ''\<close>\<close>

definition eligible :: "stored_row list \<Rightarrow> stored_row list" where
  "eligible t = filter (\<lambda>row. region (snd row) \<noteq> None \<and> region (snd row) \<noteq> Some []) t"

text \<open>\<open>PARTITION BY region\<close>: the rows of one region.\<close>

definition partition_of :: "string \<Rightarrow> stored_row list \<Rightarrow> stored_row list" where
  "partition_of g t = filter (\<lambda>row. region (snd row) = Some g) t"

text \<open>
  \<open>ROW_NUMBER() OVER (PARTITION BY region ORDER BY key)\<close> numbers the rows of a partition
  in the order in which the engine's sort leaves them; \<open>ORDER BY\<close> names no second
  key, so the order among rows with equal keys is the sort's. The row numbered \<open>1\<close> is
  the first one, and \<open>MAX(CASE WHEN rank = 1 THEN col END)\<close> is its column, or \<open>NULL\<close>
  when no row has that number.
\<close>

definition row_number_1 ::
    "stored_row sorter \<Rightarrow> (stored_row \<Rightarrow> int) \<Rightarrow> stored_row list \<Rightarrow> stored_row option" where
  "row_number_1 srt key part = (case srt key part of [] \<Rightarrow> None | row # rest \<Rightarrow> Some row)"

definition summary_of :: "stored_row sorter \<Rightarrow> stored_row list \<Rightarrow> string \<Rightarrow> region_summary" where
  "summary_of srt t g =
     (let part = partition_of g t;
          rank_desc_1 = row_number_1 srt (\<lambda>row. - population (snd row)) part;
          rank_asc_1 = row_number_1 srt (\<lambda>row. population (snd row)) part
      in \<lparr>summary_region = g,
          total_population = sum_list (map (\<lambda>row. population (snd row)) part),
          largest_country = map_option (\<lambda>row. name (snd row)) rank_desc_1,
          largest_population = map_option (\<lambda>row. population (snd row)) rank_desc_1,
          smallest_country = map_option (\<lambda>row. name (snd row)) rank_asc_1,
          smallest_population = map_option (\<lambda>row. population (snd row)) rank_asc_1\<rparr>)"

text \<open>
  \<open>GROUP BY region, total_pop\<close> gives one group per region of the eligible rows;
  \<open>ORDER BY total_pop DESC\<close> sorts the groups, again with the engine's order among
  equal totals (\<open>srt2\<close>).
\<close>

definition regions_of :: "stored_row list \<Rightarrow> string list" where
  "regions_of t =
     remdups (concat (map (\<lambda>row. case region (snd row) of None \<Rightarrow> [] | Some g \<Rightarrow> [g])
                          (eligible t)))"

definition aggregate_query ::
    "stored_row sorter \<Rightarrow> region_summary sorter \<Rightarrow> stored_row list \<Rightarrow> region_summary list" where
  "aggregate_query srt srt2 t =
     srt2 (\<lambda>g. - total_population g) (map (summary_of srt (eligible t)) (regions_of t))"

definition get_aggregated_stats ::
    "stored_row sorter \<Rightarrow> region_summary sorter \<Rightarrow> manager
       \<Rightarrow> (exc + region_summary list) \<times> manager" where
  "get_aggregated_stats srt srt2 s = read_sql_query (aggregate_query srt srt2) s"

subsection \<open>Sample data\<close>

definition no_table :: database where
  "no_table = \<lparr>countries = None, countries_id_seq = 0\<rparr>"

definition always_up :: "nat \<Rightarrow> bool" where
  "always_up i = True"

definition never_up :: "nat \<Rightarrow> bool" where
  "never_up i = False"

definition chad :: country_record where
  "chad = \<lparr>name = ''Chad'', cca2 = ''TD'', cca3 = ''TCD'', region = Some ''Africa'',
           population = 16425859, area = 1284000\<rparr>"

definition fiji :: country_record where
  "fiji = \<lparr>name = ''Fiji'', cca2 = ''FJ'', cca3 = ''FJI'', region = Some ''Oceania'',
           population = 896444, area = 18272\<rparr>"

definition niger :: country_record where
  "niger = \<lparr>name = ''Niger'', cca2 = ''NE'', cca3 = ''NER'', region = Some ''Africa'',
           population = 16425859, area = 1240192\<rparr>"

definition long_name :: country_record where
  "long_name = \<lparr>name = replicate 256 (CHR ''x''), cca2 = ''XX'', cca3 = ''XXX'',
                region = Some ''Other'', population = 1, area = 1\<rparr>"

definition padded_name :: country_record where
  "padded_name = \<lparr>name = replicate 255 (CHR ''x'') @ '' '', cca2 = ''XX'', cca3 = ''XXX'',
                  region = Some ''Other'', population = 1, area = 1\<rparr>"

definition third_up :: "nat \<Rightarrow> bool" where
  "third_up i = (i = 2)"

definition loaded :: manager where
  "loaded = snd (save_data (DatabaseManager always_up no_table) [chad, fiji])"

definition aborted :: manager where
  "aborted = snd (save_data loaded [fiji, long_name])"

subsection \<open>Notions used in the results\<close>

text \<open>
  The id that the first row inserted by \<^verbatim>\<open>save_data\<close> receives: \<open>1\<close> when
  \<^verbatim>\<open>init_db\<close> has to create the table, the next value of the sequence otherwise.
\<close>

definition first_id :: "manager \<Rightarrow> nat" where
  "first_id s =
     (if (case conn s of Some (Active w) \<Rightarrow> w | _ \<Rightarrow> countries (server s)) = None then 1
      else countries_id_seq (server s))"

text \<open>A record fits the declared columns of the table.\<close>

definition fits :: "country_record \<Rightarrow> bool" where
  "fits r =
     (\<not> has_nul r \<and> length (name r) \<le> 255 \<and> length (cca2 r) \<le> 10 \<and> length (cca3 r) \<le> 10
      \<and> (case region r of None \<Rightarrow> True | Some g \<Rightarrow> length g \<le> 100)
      \<and> - (2 ^ 63) \<le> population r \<and> population r < 2 ^ 63
      \<and> float8_exact (area r))"

text \<open>The sequence, whose next value is \<open>n\<close>, still has \<open>k\<close> values to give.\<close>

definition ids_left :: "nat \<Rightarrow> nat \<Rightarrow> bool" where
  "ids_left n k = (k = 0 \<or> n + k \<le> Suc serial_max)"

text \<open>
  The exception that the \<open>INSERT\<close> of a record raises on an existing table when the
  next value of the sequence is \<open>n\<close>, and the exception of the first failing \<open>INSERT\<close>
  of a batch.
\<close>

definition insert_error :: "nat \<Rightarrow> country_record \<Rightarrow> exc option" where
  "insert_error n r =
     (if has_nul r then Some ValueError
      else (case column_values r of
              Inl e \<Rightarrow> Some e
            | Inr v \<Rightarrow> if serial_max < n then Some SequenceGeneratorLimitExceeded else None))"

fun first_failure :: "nat \<Rightarrow> country_record list \<Rightarrow> exc option" where
  "first_failure n [] = None"
| "first_failure n (r # rest) =
     (case insert_error n r of Some e \<Rightarrow> Some e | None \<Rightarrow> first_failure (Suc n) rest)"

text \<open>
  The record that a tuple of \<^verbatim>\<open>fetch_api_data\<close> denotes when its components have
  the types of the columns: strings, an integer population, a number for the area.
\<close>

fun record_of_tuple :: "country_tuple \<Rightarrow> country_record option" where
  "record_of_tuple (JStr n, JStr c2, JStr c3, reg, JInt p, ar) =
     (case (case reg of JStr g \<Rightarrow> Some (Some g) | JNull \<Rightarrow> Some None | _ \<Rightarrow> None) of
        None \<Rightarrow> None
      | Some g \<Rightarrow>
          (case (case ar of JInt i \<Rightarrow> Some (of_int i) | JFloat x \<Rightarrow> Some x | _ \<Rightarrow> None) of
             None \<Rightarrow> None
           | Some a \<Rightarrow>
               Some \<lparr>name = n, cca2 = c2, cca3 = c3, region = g, population = p, area = a\<rparr>))"
| "record_of_tuple _ = None"

text \<open>
  A sorting routine is stable when it keeps rows with equal keys in the order of its
  input.
\<close>

definition stable :: "'r sorter \<Rightarrow> bool" where
  "stable srt = (\<forall>k xs v. filter (\<lambda>x. k x = v) (srt k xs) = filter (\<lambda>x. k x = v) xs)"

definition country :: "string \<Rightarrow> string option \<Rightarrow> int \<Rightarrow> country_record" where
  "country n g p = \<lparr>name = n, cca2 = [], cca3 = [], region = g, population = p, area = 0\<rparr>"

definition no_region :: manager where
  "no_region = snd (save_data (DatabaseManager always_up no_table)
     [country ''D'' None 5, country ''E'' (Some []) 7])"

definition two_regions :: manager where
  "two_regions = snd (save_data (DatabaseManager always_up no_table)
     [country ''A'' (Some ''X'') 10, country ''B'' (Some ''X'') 20, country ''C'' (Some ''X'') 30,
      country ''D'' None 5, country ''E'' (Some []) 7, country ''F'' (Some ''Y'') 100])"

section \<open>Results about fetch_api_data\<close>

lemma country_of_item_normalize:
  assumes "country_object item"
  shows "country_of_item item = Inr (normalize_spec item)"
proof (cases item)
  case (JObj kvs)
  show ?thesis
  proof (cases "map_of kvs ''name''")
    case None
    with JObj show ?thesis
      by (simp add: country_of_item_def normalize_spec_def exc_bind_def)
  next
    case (Some nm)
    with assms JObj obtain nkvs where "nm = JObj nkvs"
      by (cases nm) auto
    with Some JObj show ?thesis
      by (simp add: country_of_item_def normalize_spec_def exc_bind_def)
  qed
qed (use assms in auto)

lemma countries_loop_normalize:
  "\<forall>item \<in> set items. country_object item \<Longrightarrow>
   countries_loop items acc = Inr (acc @ map normalize_spec items)"
  by (induction items arbitrary: acc) (simp_all add: country_of_item_normalize)

lemma fetch_api_data_frame:
  assumes "\<not> (400 \<le> status \<and> status < 600)"
    and "\<forall>item \<in> set items. country_object item"
  shows "fetch_api_data (Response status (Some (JArr items))) =
           (Frame country_columns (map normalize_spec items), None)"
proof -
  have "countries_loop items [] = Inr (map normalize_spec items)"
    using countries_loop_normalize [OF assms(2), of "[]"] by simp
  then show ?thesis
    using assms(1)
    by (simp add: fetch_api_data_def fetch_api_try_def http_json_def exc_bind_def)
qed

text \<open>
  C8. For a successful response whose body is an array of country objects,
  \<^verbatim>\<open>fetch_api_data\<close> returns the frame of the normalised objects, one row per object
  and in the order of the array: an absent name becomes \<open>N/A\<close>, absent codes the empty
  string, an absent region \<open>Other\<close>, absent population and area \<open>0\<close>. No record is
  dropped and nothing is reported through \<^verbatim>\<open>st.error\<close>.
\<close>

theorem fetch_api_data_defaults:
  assumes "\<not> (400 \<le> status \<and> status < 600)"
    and "\<forall>item \<in> set items. country_object item"
  shows "fetch_api_data (Response status (Some (JArr items))) =
           (Frame country_columns (map normalize_spec items), None)
         \<and> length (rows (fst (fetch_api_data (Response status (Some (JArr items)))))) = length items"
  using fetch_api_data_frame [OF assms] by simp

theorem fetch_api_data_defaults_witness:
  "fetch_api_data (Response 200 (Some (JArr
      [JObj [(''name'', JObj [(''common'', JStr ''Chad'')]), (''cca2'', JStr ''TD''),
             (''cca3'', JStr ''TCD''), (''population'', JInt 16425859)],
       JObj []]))) =
     (Frame country_columns
        [(JStr ''Chad'', JStr ''TD'', JStr ''TCD'', JStr ''Other'', JInt 16425859, JInt 0),
         (JStr ''N/A'', JStr [], JStr [], JStr ''Other'', JInt 0, JInt 0)], None)"
  using fetch_api_data_defaults [of 200
      "[JObj [(''name'', JObj [(''common'', JStr ''Chad'')]), (''cca2'', JStr ''TD''),
              (''cca3'', JStr ''TCD''), (''population'', JInt 16425859)],
        JObj []]"]
  by (simp add: normalize_spec_def)

section \<open>Results about get_population_world_bank\<close>

lemma history_row_point_of:
  assumes "history_entry entry" and "\<not> null_value entry"
  shows "history_row entry = Inr (point_of entry)"
proof -
  from assms(1) obtain kvs where e: "entry = JObj kvs"
    by (cases entry) (auto simp: history_entry_def)
  from assms e obtain v where v: "map_of kvs ''value'' = Some v" "v \<noteq> JNull"
    by (auto simp: history_entry_def null_value_def split: option.splits)
  from assms(1) e v obtain ckvs where c: "map_of kvs ''country'' = Some (JObj ckvs)"
    by (auto simp: history_entry_def split: option.splits json.splits)
  from assms(1) e v c obtain label where l: "map_of ckvs ''value'' = Some label"
    by (auto simp: history_entry_def)
  from assms(1) e v obtain d y where d: "map_of kvs ''date'' = Some d" "py_int d = Inr y"
    by (auto simp: history_entry_def split: option.splits sum.splits)
  show ?thesis
    by (simp add: e v c l d history_row_def point_of_def exc_bind_def)
qed

lemma history_loop_surviving:
  "\<forall>entry \<in> set entries. history_entry entry \<Longrightarrow>
   history_loop entries acc = Inr (acc @ surviving entries)"
proof (induction entries arbitrary: acc)
  case Nil
  show ?case by (simp add: surviving_def)
next
  case (Cons entry rest)
  then have he: "history_entry entry" and rest: "\<forall>e \<in> set rest. history_entry e"
    by simp_all
  from he obtain kvs v where e: "entry = JObj kvs" "map_of kvs ''value'' = Some v"
    by (cases entry) (auto simp: history_entry_def split: option.splits)
  show ?case
  proof (cases "v = JNull")
    case True
    then have "null_value entry" by (simp add: null_value_def e)
    with True e Cons.IH [OF rest] show ?thesis
      by (simp add: surviving_def)
  next
    case False
    then have nn: "\<not> null_value entry" by (simp add: null_value_def e)
    from history_row_point_of [OF he nn] False e nn Cons.IH [OF rest] show ?thesis
      by (simp add: surviving_def)
  qed
qed

text \<open>
  A response without a sequence in second place gives \<open>None\<close>, whatever else it is.
\<close>

lemma world_bank_no_series:
  assumes "\<not> has_series data"
  shows "fst (get_population_world_bank srt (Response status (Some data))) = None"
proof (cases "world_bank_try srt (Response status (Some data))")
  case (Inl e)
  then show ?thesis by (simp add: get_population_world_bank_def)
next
  case (Inr res)
  have "res = None"
  proof (cases data)
    case (JArr xs)
    show ?thesis
    proof (cases xs)
      case Nil
      with JArr Inr show ?thesis
        by (auto simp: world_bank_try_def http_json_def exc_bind_def split: if_splits)
    next
      case (Cons x ys)
      show ?thesis
      proof (cases ys)
        case Nil
        with Cons JArr Inr show ?thesis
          by (auto simp: world_bank_try_def http_json_def exc_bind_def split: if_splits)
      next
        case (Cons y zs)
        with assms JArr \<open>xs = x # ys\<close> have "\<not> is_list y"
          by (cases y) auto
        with Cons JArr \<open>xs = x # ys\<close> Inr show ?thesis
          by (auto simp: world_bank_try_def http_json_def exc_bind_def split: if_splits)
      qed
    qed
  next
    case (JStr str)
    with Inr show ?thesis
      by (auto simp: world_bank_try_def http_json_def exc_bind_def split: if_splits)
  qed (use Inr in \<open>auto simp: world_bank_try_def http_json_def exc_bind_def split: if_splits\<close>)
  with Inr show ?thesis by (simp add: get_population_world_bank_def)
qed

text \<open>
  With a sequence in second place, well-formed entries and at least one value that is
  not null, the frame holds exactly the points of the surviving entries, ascending by
  year.
\<close>

lemma world_bank_sorted_points:
  assumes "\<not> (400 \<le> status \<and> status < 600)"
    and "\<forall>entry \<in> set entries. history_entry entry"
    and "surviving entries \<noteq> []"
    and "sorts srt"
  shows "\<exists>pts. get_population_world_bank srt
                  (Response status (Some (JArr (meta # JArr entries # rest)))) =
                (Some (Frame [''country'', ''year'', ''population''] pts), None)
              \<and> mset pts = mset (surviving entries)
              \<and> sorted (map hist_year pts)"
proof -
  have loop: "history_loop entries [] = Inr (surviving entries)"
    using history_loop_surviving [OF assms(2), of "[]"] by simp
  have "get_population_world_bank srt
          (Response status (Some (JArr (meta # JArr entries # rest)))) =
        (Some (Frame [''country'', ''year'', ''population'']
                 (srt hist_year (surviving entries))), None)"
    using assms(1,3) loop
    by (simp add: get_population_world_bank_def world_bank_try_def http_json_def
        exc_bind_def history_frame_def sort_values_year_def)
  moreover from assms(4) have "mset (srt hist_year (surviving entries)) = mset (surviving entries)"
    and "sorted (map hist_year (srt hist_year (surviving entries)))"
    by (simp_all add: sorts_def)
  ultimately show ?thesis by blast
qed

lemma history_loop_all_null:
  "\<forall>entry \<in> set entries. py_getitem entry ''value'' = Inr JNull \<Longrightarrow>
   history_loop entries acc = Inr acc"
  by (induction entries arbitrary: acc) simp_all

text \<open>
  C7. The response \<open>[{}, [{"value": null, ...}]]\<close> is well formed and has a sequence in
  second place, yet the function returns \<open>None\<close> and reports \<open>KeyError: 'year'\<close>
  instead of returning the empty sequence of points.
\<close>

theorem world_bank_all_null_returns_none:
  "get_population_world_bank srt
     (Response 200 (Some (JArr
        [JObj [],
         JArr [JObj [(''country'', JObj [(''value'', JStr ''Chad'')]),
                     (''date'', JStr ''2000''), (''value'', JNull)]]]))) =
   (None, Some (KeyError ''year''))"
  by (simp add: get_population_world_bank_def world_bank_try_def http_json_def
      exc_bind_def history_frame_def sort_values_year_def)

text \<open>
  C9. When the second element is a sequence whose entries all carry a null value (the
  empty sequence included), the frame built from no row has no \<open>year\<close> column, sorting
  it raises \<open>KeyError\<close>, the handler catches it and the function returns \<open>None\<close>.
\<close>

theorem world_bank_no_survivor:
  assumes "\<not> (400 \<le> status \<and> status < 600)"
    and "\<forall>entry \<in> set entries. py_getitem entry ''value'' = Inr JNull"
  shows "sort_values_year srt (history_frame []) = Inl (KeyError ''year'')
         \<and> get_population_world_bank srt
             (Response status (Some (JArr (meta # JArr entries # rest)))) =
           (None, Some (KeyError ''year''))"
  using assms(1) history_loop_all_null [OF assms(2), of "[]"]
  by (simp add: get_population_world_bank_def world_bank_try_def http_json_def
      exc_bind_def history_frame_def sort_values_year_def)

theorem world_bank_no_survivor_witness:
  "get_population_world_bank sort_key
     (Response 200 (Some (JArr
        [JObj [(''page'', JInt 1)],
         JArr [JObj [(''date'', JStr ''2000''), (''value'', JNull)],
               JObj [(''date'', JStr ''2001''), (''value'', JNull)]]]))) =
   (None, Some (KeyError ''year''))
   \<and> get_population_world_bank sort_key
       (Response 200 (Some (JArr [JObj [(''page'', JInt 0)], JArr []]))) =
     (None, Some (KeyError ''year''))"
  using world_bank_no_survivor [of 200
      "[JObj [(''date'', JStr ''2000''), (''value'', JNull)],
        JObj [(''date'', JStr ''2001''), (''value'', JNull)]]"
      sort_key "JObj [(''page'', JInt 1)]" "[]"]
    world_bank_no_survivor [of 200 "[]" sort_key "JObj [(''page'', JInt 0)]" "[]"]
  by simp

section \<open>Results about connecting\<close>

lemma connect_loop_all_fail:
  "\<forall>i \<in> set rounds. \<not> reachable i \<Longrightarrow>
   connect_loop reachable rounds s =
     s\<lparr>events := events s @ concat (replicate (length rounds) [Attempt, Sleep 2]) @ [StError]\<rparr>"
  by (induction rounds arbitrary: s) simp_all

lemma connect_loop_first_success:
  "\<forall>i \<in> set failed. \<not> reachable i \<Longrightarrow> reachable k \<Longrightarrow>
   connect_loop reachable (failed @ k # rest) s =
     s\<lparr>conn := Some Idle,
       events := events s @ concat (replicate (length failed) [Attempt, Sleep 2]) @ [Attempt]\<rparr>"
  by (induction failed arbitrary: s) simp_all

lemma connect_loop_attempts:
  "length (filter (\<lambda>e. e = Attempt) (events (connect_loop reachable rounds s))) \<le>
   length (filter (\<lambda>e. e = Attempt) (events s)) + length rounds"
proof (induction rounds arbitrary: s)
  case Nil
  show ?case by simp
next
  case (Cons i rounds)
  show ?case
  proof (cases "reachable i")
    case True
    then show ?thesis by simp
  next
    case False
    with Cons [of "s\<lparr>events := events s @ [Attempt, Sleep 2]\<rparr>"] show ?thesis by simp
  qed
qed

lemma disconnected_operations:
  assumes "conn s = None"
  shows "init_db s = (Some (AttributeError ''cursor''), s)"
    and "save_data s df = (Some (AttributeError ''cursor''), s)"
    and "get_all_data scan s = (Inl (AttributeError ''cursor''), s)"
    and "get_aggregated_stats srt srt2 s = (Inl (AttributeError ''cursor''), s)"
  using assms
  by (simp_all add: init_db_def save_data_def get_all_data_def get_aggregated_stats_def
      read_sql_query_def)

text \<open>
  C4. The constructor calls \<^verbatim>\<open>psycopg2.connect\<close> at most five times and sleeps two
  time units after every failed call. When a call succeeds the manager is connected and
  stops trying. When all five fail it reports the failure through \<^verbatim>\<open>st.error\<close> and
  is left without a connection; every storage operation then fails at once, without a
  further attempt to connect and without touching the manager, with the
  \<open>AttributeError\<close> of calling \<open>cursor\<close> on \<open>None\<close>.
\<close>

theorem connect_retries_then_fails_fast:
  "length (filter (\<lambda>e. e = Attempt) (events (DatabaseManager reachable db))) \<le> 5
   \<and> (\<forall>k < 5. reachable k \<and> (\<forall>i < k. \<not> reachable i) \<longrightarrow>
        conn (DatabaseManager reachable db) = Some Idle
        \<and> events (DatabaseManager reachable db) =
            concat (replicate k [Attempt, Sleep 2]) @ [Attempt])
   \<and> ((\<forall>i < 5. \<not> reachable i) \<longrightarrow>
        conn (DatabaseManager reachable db) = None
        \<and> events (DatabaseManager reachable db) =
            concat (replicate 5 [Attempt, Sleep 2]) @ [StError]
        \<and> init_db (DatabaseManager reachable db) =
            (Some (AttributeError ''cursor''), DatabaseManager reachable db)
        \<and> save_data (DatabaseManager reachable db) df =
            (Some (AttributeError ''cursor''), DatabaseManager reachable db)
        \<and> get_all_data scan (DatabaseManager reachable db) =
            (Inl (AttributeError ''cursor''), DatabaseManager reachable db)
        \<and> get_aggregated_stats srt srt2 (DatabaseManager reachable db) =
            (Inl (AttributeError ''cursor''), DatabaseManager reachable db))"
proof (intro conjI allI impI)
  let ?s0 = "\<lparr>conn = None, events = [], server = db\<rparr>"
  show "length (filter (\<lambda>e. e = Attempt) (events (DatabaseManager reachable db))) \<le> 5"
    using connect_loop_attempts [of reachable "[0..<5]" ?s0]
    by (simp add: DatabaseManager_def connect_def)
next
  fix k
  assume k: "k < 5" and "reachable k \<and> (\<forall>i < k. \<not> reachable i)"
  then have r: "reachable k" and f: "\<forall>i \<in> set [0..<k]. \<not> reachable i"
    by simp_all
  from k have split: "[0..<5] = [0..<k] @ k # [Suc k..<5]"
    by (metis less_imp_le_nat upt_add_eq_append upt_conv_Cons le_add_diff_inverse zero_le)
  have m: "DatabaseManager reachable db =
      \<lparr>conn = None, events = [], server = db\<rparr>\<lparr>conn := Some Idle,
        events := concat (replicate k [Attempt, Sleep 2]) @ [Attempt]\<rparr>"
    using connect_loop_first_success [OF f r, of "[Suc k..<5]" "\<lparr>conn = None, events = [], server = db\<rparr>"]
    unfolding DatabaseManager_def connect_def split by simp
  show "conn (DatabaseManager reachable db) = Some Idle" by (simp add: m)
  show "events (DatabaseManager reachable db) = concat (replicate k [Attempt, Sleep 2]) @ [Attempt]"
    by (simp add: m)
next
  assume "\<forall>i < 5. \<not> reachable i"
  then have f: "\<forall>i \<in> set [0..<5]. \<not> reachable i" by simp
  have m: "DatabaseManager reachable db =
      \<lparr>conn = None, events = concat (replicate 5 [Attempt, Sleep 2]) @ [StError], server = db\<rparr>"
    using connect_loop_all_fail [OF f, of "\<lparr>conn = None, events = [], server = db\<rparr>"]
    unfolding DatabaseManager_def connect_def by simp
  then have c: "conn (DatabaseManager reachable db) = None" by simp
  show "conn (DatabaseManager reachable db) = None" by (rule c)
  show "events (DatabaseManager reachable db) = concat (replicate 5 [Attempt, Sleep 2]) @ [StError]"
    unfolding m by simp
  show "init_db (DatabaseManager reachable db) =
            (Some (AttributeError ''cursor''), DatabaseManager reachable db)"
    by (rule disconnected_operations(1) [OF c])
  show "save_data (DatabaseManager reachable db) df =
            (Some (AttributeError ''cursor''), DatabaseManager reachable db)"
    by (rule disconnected_operations(2) [OF c])
  show "get_all_data scan (DatabaseManager reachable db) =
            (Inl (AttributeError ''cursor''), DatabaseManager reachable db)"
    by (rule disconnected_operations(3) [OF c])
  show "get_aggregated_stats srt srt2 (DatabaseManager reachable db) =
            (Inl (AttributeError ''cursor''), DatabaseManager reachable db)"
    by (rule disconnected_operations(4) [OF c])
qed

theorem connect_retries_then_fails_fast_witness:
  "conn (DatabaseManager never_up no_table) = None
   \<and> events (DatabaseManager never_up no_table) =
       [Attempt, Sleep 2, Attempt, Sleep 2, Attempt, Sleep 2, Attempt, Sleep 2,
        Attempt, Sleep 2, StError]
   \<and> save_data (DatabaseManager never_up no_table) [chad] =
       (Some (AttributeError ''cursor''), DatabaseManager never_up no_table)
   \<and> conn (DatabaseManager third_up no_table) = Some Idle
   \<and> events (DatabaseManager third_up no_table) = [Attempt, Sleep 2, Attempt, Sleep 2, Attempt]"
  using connect_retries_then_fails_fast [of never_up no_table "[chad]" id sort_key sort_key]
    connect_retries_then_fails_fast [of third_up no_table "[chad]" id sort_key sort_key]
  by (simp add: never_up_def third_up_def numeral_eq_Suc)

text \<open>
  The error of an operation on a disconnected manager is that \<open>AttributeError\<close>, not
  the specification's \<open>ConnectionError\<close>.
\<close>

theorem disconnected_error_counterexample:
  "conn (DatabaseManager never_up no_table) = None
   \<and> fst (init_db (DatabaseManager never_up no_table)) = Some (AttributeError ''cursor'')
   \<and> fst (init_db (DatabaseManager never_up no_table)) \<noteq> Some ConnectionError"
  by (simp add: DatabaseManager_def connect_def never_up_def upt_rec init_db_def)

section \<open>Results about init_db and save_data\<close>

text \<open>Only a commit changes the committed table.\<close>

lemma execute_committed:
  "countries (server (snd (execute s stmt))) = countries (server s)"
  by (auto simp: execute_def split: option.splits txn.splits sum.splits prod.splits)

lemma executemany_committed:
  "countries (server (snd (executemany s df))) = countries (server s)"
proof (induction df arbitrary: s)
  case Nil
  show ?case by simp
next
  case (Cons r rest)
  show ?case
  proof (cases "has_nul r")
    case True
    then show ?thesis by simp
  next
    case False
    obtain res s' where ex: "execute s (insert_row r) = (res, s')"
      by (cases "execute s (insert_row r)")
    then have c: "countries (server s') = countries (server s)"
      using execute_committed [of s "insert_row r"] by simp
    show ?thesis
    proof (cases res)
      case None
      with False ex Cons [of s'] c show ?thesis by simp
    next
      case (Some e)
      with False ex c show ?thesis by simp
    qed
  qed
qed

text \<open>On a usable connection \<^verbatim>\<open>init_db\<close> commits an empty table.\<close>

lemma init_db_connected:
  assumes "conn s = Some c" and "c \<noteq> Failed"
  shows "init_db s =
     (None, s\<lparr>conn := Some Idle,
              server := \<lparr>countries = Some [], countries_id_seq = first_id s\<rparr>\<rparr>)"
  using assms
  by (cases c) (simp_all add: init_db_def execute_def create_and_truncate_def commit_def first_id_def)

text \<open>The integers below \<open>2 ^ 53\<close> are numbers that a double holds.\<close>

lemma float8_exact_of_int: "\<bar>i\<bar> < 2 ^ 53 \<Longrightarrow> float8_exact (real_of_int i)"
  unfolding float8_exact_def
  by (rule exI [of _ i], rule exI [of _ 0]) simp

lemma float8_exact_numeral: "(numeral k :: int) < 2 ^ 53 \<Longrightarrow> float8_exact (numeral k)"
  using float8_exact_of_int [of "numeral k"] by simp

lemma float8_exact_0: "float8_exact 0"
  using float8_exact_of_int [of 0] by simp

lemma float8_exact_1: "float8_exact 1"
  using float8_exact_of_int [of 1] by simp

lemma float8_numeral: "(numeral k :: int) < 2 ^ 53 \<Longrightarrow> float8 (numeral k) = Inr (numeral k)"
  by (simp add: float8_def float8_exact_numeral)

lemma float8_0: "float8 0 = Inr 0"
  by (simp add: float8_def float8_exact_0)

lemma float8_1: "float8 1 = Inr 1"
  by (simp add: float8_def float8_exact_1)

text \<open>
  On a usable connection that sees the table, a batch of inserts returns the exception
  of its first failing \<open>INSERT\<close>, if there is one.
\<close>

lemma insert_error_execute:
  assumes "conn s = Some c" and "c \<noteq> Failed"
    and "(case c of Active w \<Rightarrow> w | _ \<Rightarrow> countries (server s)) = Some t"
    and "\<not> has_nul r"
  shows "fst (execute s (insert_row r)) = insert_error (countries_id_seq (server s)) r"
    and "insert_error (countries_id_seq (server s)) r = None \<Longrightarrow>
         \<exists>v. column_values r = Inr v \<and> countries_id_seq (server s) \<le> serial_max
           \<and> snd (execute s (insert_row r)) =
               s\<lparr>conn := Some (Active (Some (t @ [(countries_id_seq (server s), v)]))),
                 server := (server s)\<lparr>countries_id_seq := Suc (countries_id_seq (server s))\<rparr>\<rparr>"
proof -
  let ?n = "countries_id_seq (server s)"
  have stmt: "insert_row r (case c of Active w \<Rightarrow> w | _ \<Rightarrow> countries (server s)) ?n =
      (case column_values r of
         Inl e \<Rightarrow> Inl e
       | Inr v \<Rightarrow> if serial_max < ?n then Inl SequenceGeneratorLimitExceeded
                  else Inr (Some (t @ [(?n, v)]), Suc ?n))"
    using assms(3) by (simp add: insert_row_def exc_bind_def split: sum.splits)
  have ex: "execute s (insert_row r) =
      (case insert_row r (case c of Active w \<Rightarrow> w | _ \<Rightarrow> countries (server s)) ?n of
         Inl e \<Rightarrow> (Some e, s\<lparr>conn := Some Failed\<rparr>)
       | Inr (w', n') \<Rightarrow>
           (None, s\<lparr>conn := Some (Active w'),
                     server := (server s)\<lparr>countries_id_seq := n'\<rparr>\<rparr>))"
    using assms(1,2) by (cases c) (simp_all add: execute_def)
  show "fst (execute s (insert_row r)) = insert_error ?n r"
    unfolding ex stmt using assms(4)
    by (simp add: insert_error_def split: sum.splits)
  assume "insert_error ?n r = None"
  with assms(4) obtain v where v: "column_values r = Inr v" and n: "?n \<le> serial_max"
    by (auto simp: insert_error_def split: sum.splits if_splits)
  then have "snd (execute s (insert_row r)) =
               s\<lparr>conn := Some (Active (Some (t @ [(?n, v)]))),
                 server := (server s)\<lparr>countries_id_seq := Suc ?n\<rparr>\<rparr>"
    unfolding ex stmt by simp
  with v n show "\<exists>v. column_values r = Inr v \<and> ?n \<le> serial_max
           \<and> snd (execute s (insert_row r)) =
               s\<lparr>conn := Some (Active (Some (t @ [(?n, v)]))),
                 server := (server s)\<lparr>countries_id_seq := Suc ?n\<rparr>\<rparr>"
    by blast
qed

lemma executemany_result:
  assumes "conn s = Some c" and "c \<noteq> Failed"
    and "(case c of Active w \<Rightarrow> w | _ \<Rightarrow> countries (server s)) = Some t"
  shows "fst (executemany s df) = first_failure (countries_id_seq (server s)) df"
  using assms
proof (induction df arbitrary: s c t)
  case Nil
  show ?case by simp
next
  case (Cons r rest)
  let ?n = "countries_id_seq (server s)"
  show ?case
  proof (cases "has_nul r")
    case True
    then show ?thesis by (simp add: insert_error_def)
  next
    case False
    note ex = insert_error_execute [OF Cons.prems False]
    show ?thesis
    proof (cases "insert_error ?n r")
      case (Some e)
      with ex(1) False show ?thesis
        by (cases "execute s (insert_row r)") auto
    next
      case None
      from ex(2) [OF None] obtain v where
        s': "snd (execute s (insert_row r)) =
               s\<lparr>conn := Some (Active (Some (t @ [(?n, v)]))),
                 server := (server s)\<lparr>countries_id_seq := Suc ?n\<rparr>\<rparr>"
        by blast
      let ?s' = "s\<lparr>conn := Some (Active (Some (t @ [(?n, v)]))),
                 server := (server s)\<lparr>countries_id_seq := Suc ?n\<rparr>\<rparr>"
      have "fst (executemany ?s' rest) = first_failure (countries_id_seq (server ?s')) rest"
        by (rule Cons.IH [of ?s' "Active (Some (t @ [(?n, v)]))" "t @ [(?n, v)]"]) simp_all
      with ex(1) None s' False show ?thesis
        by (cases "execute s (insert_row r)") auto
    qed
  qed
qed

lemma first_failure_None:
  "first_failure n df = None \<Longrightarrow>
   (\<forall>r \<in> set df. \<not> has_nul r) \<and> (\<exists>vs. map column_values df = map Inr vs)
   \<and> ids_left n (length df)"
proof (induction df arbitrary: n)
  case Nil
  show ?case by (simp add: ids_left_def)
next
  case (Cons r rest)
  from Cons.prems have ie: "insert_error n r = None" and ff: "first_failure (Suc n) rest = None"
    by (auto split: option.splits)
  from ie have nn: "\<not> has_nul r" and n: "n \<le> serial_max"
    by (auto simp: insert_error_def split: if_splits sum.splits)
  from ie obtain v where v: "column_values r = Inr v"
    by (auto simp: insert_error_def split: if_splits sum.splits)
  from Cons.IH [OF ff] obtain vs where "\<forall>r \<in> set rest. \<not> has_nul r"
    and "map column_values rest = map Inr vs" and "ids_left (Suc n) (length rest)"
    by blast
  with nn v n have "\<forall>r' \<in> set (r # rest). \<not> has_nul r'"
    and "map column_values (r # rest) = map Inr (v # vs)"
    and "ids_left n (length (r # rest))"
    by (auto simp: ids_left_def)
  then show ?case by blast
qed

lemma first_failure_fitting:
  "\<forall>r \<in> set df. \<not> has_nul r \<Longrightarrow> map column_values df = map Inr vs \<Longrightarrow>
   ids_left n (length df) \<Longrightarrow> first_failure n df = None"
proof (induction df arbitrary: n vs)
  case Nil
  show ?case by simp
next
  case (Cons r rest)
  from Cons.prems(2) obtain v vs' where "column_values r = Inr v"
    and rest: "map column_values rest = map Inr vs'"
    by (cases vs) auto
  moreover from Cons.prems(3) have "n \<le> serial_max" and "ids_left (Suc n) (length rest)"
    by (auto simp: ids_left_def)
  ultimately show ?case
    using Cons.prems(1) Cons.IH [of vs' "Suc n"] by (simp add: insert_error_def)
qed

lemma executemany_inserts:
  assumes "conn s = Some (Active (Some t))"
    and "\<forall>r \<in> set df. \<not> has_nul r"
    and "map column_values df = map Inr vs"
    and "ids_left (countries_id_seq (server s)) (length df)"
  shows "executemany s df =
     (None, s\<lparr>conn := Some (Active (Some (t @ zip [countries_id_seq (server s)..<countries_id_seq (server s) + length df] vs))),
              server := (server s)\<lparr>countries_id_seq := countries_id_seq (server s) + length df\<rparr>\<rparr>)"
  using assms
proof (induction df arbitrary: s t vs)
  case Nil
  then show ?case by simp
next
  case (Cons r rest)
  from Cons.prems(3) obtain v vs' where vs: "vs = v # vs'" and v: "column_values r = Inr v"
    and rest: "map column_values rest = map Inr vs'"
    by (cases vs) auto
  let ?n = "countries_id_seq (server s)"
  from Cons.prems(4) have n: "?n \<le> serial_max" and left: "ids_left (Suc ?n) (length rest)"
    by (auto simp: ids_left_def)
  let ?s' = "s\<lparr>conn := Some (Active (Some (t @ [(?n, v)]))),
               server := (server s)\<lparr>countries_id_seq := Suc ?n\<rparr>\<rparr>"
  have ex: "execute s (insert_row r) = (None, ?s')"
    using Cons.prems(1) v n by (simp add: execute_def insert_row_def exc_bind_def)
  have "executemany ?s' rest =
     (None, ?s'\<lparr>conn := Some (Active (Some ((t @ [(?n, v)]) @ zip [Suc ?n..<Suc ?n + length rest] vs'))),
              server := (server ?s')\<lparr>countries_id_seq := Suc ?n + length rest\<rparr>\<rparr>)"
    using Cons.IH [of ?s' "t @ [(?n, v)]" vs'] Cons.prems(2) rest left by simp
  moreover have "[?n..<?n + length (r # rest)] = ?n # [Suc ?n..<Suc ?n + length rest]"
    by (subst upt_rec) simp
  ultimately show ?case
    using Cons.prems(2) ex vs by simp
qed

lemma executemany_from_idle:
  assumes "conn s = Some Idle" and "countries (server s) = Some t"
    and "\<forall>r \<in> set df. \<not> has_nul r"
    and "map column_values df = map Inr vs"
    and "ids_left (countries_id_seq (server s)) (length df)"
  shows "fst (executemany s df) = None"
    and "commit (snd (executemany s df)) =
      s\<lparr>conn := Some Idle,
        server := \<lparr>countries = Some (t @ zip [countries_id_seq (server s)..<countries_id_seq (server s) + length df] vs),
                   countries_id_seq = countries_id_seq (server s) + length df\<rparr>\<rparr>"
proof -
  let ?n = "countries_id_seq (server s)"
  have "fst (executemany s df) = None \<and> commit (snd (executemany s df)) =
      s\<lparr>conn := Some Idle,
        server := \<lparr>countries = Some (t @ zip [?n..<?n + length df] vs),
                   countries_id_seq = ?n + length df\<rparr>\<rparr>"
  proof (cases df)
    case Nil
    with assms(1,2) show ?thesis by (simp add: commit_def)
  next
    case (Cons r rest)
    with assms(4) obtain v vs' where vs: "vs = v # vs'" and v: "column_values r = Inr v"
      and rest: "map column_values rest = map Inr vs'"
      by (cases vs) auto
    from assms(5) Cons have n: "?n \<le> serial_max" and left: "ids_left (Suc ?n) (length rest)"
      by (auto simp: ids_left_def)
    let ?s' = "s\<lparr>conn := Some (Active (Some (t @ [(?n, v)]))),
                 server := (server s)\<lparr>countries_id_seq := Suc ?n\<rparr>\<rparr>"
    have ex: "execute s (insert_row r) = (None, ?s')"
      using assms(1,2) v n by (simp add: execute_def insert_row_def exc_bind_def)
    have many: "executemany ?s' rest =
       (None, ?s'\<lparr>conn := Some (Active (Some ((t @ [(?n, v)]) @ zip [Suc ?n..<Suc ?n + length rest] vs'))),
                server := (server ?s')\<lparr>countries_id_seq := Suc ?n + length rest\<rparr>\<rparr>)"
      using executemany_inserts [of ?s' "t @ [(?n, v)]" rest vs'] assms(3) rest Cons left by simp
    have upt: "[?n..<?n + length (r # rest)] = ?n # [Suc ?n..<Suc ?n + length rest]"
      by (subst upt_rec) simp
    from assms(3) Cons have "\<not> has_nul r" by simp
    with ex many upt vs Cons show ?thesis
      by (simp add: commit_def)
  qed
  then show "fst (executemany s df) = None"
    and "commit (snd (executemany s df)) =
      s\<lparr>conn := Some Idle,
        server := \<lparr>countries = Some (t @ zip [?n..<?n + length df] vs),
                   countries_id_seq = ?n + length df\<rparr>\<rparr>"
    by simp_all
qed

lemma save_data_connected:
  assumes "conn s = Some c" and "c \<noteq> Failed"
  shows "save_data s df =
     (case executemany
             (s\<lparr>conn := Some Idle,
                 server := \<lparr>countries = Some [], countries_id_seq = first_id s\<rparr>\<rparr>) df of
        (Some e, s'') \<Rightarrow> (Some e, s'')
      | (None, s'') \<Rightarrow> (None, commit s''))"
  using init_db_connected [OF assms]
  by (simp add: save_data_def)

lemma save_data_failure:
  assumes "conn s = Some c" and "c \<noteq> Failed" and "save_data s df = (Some e, s')"
  shows "countries (server s') = Some []"
proof -
  let ?s1 = "s\<lparr>conn := Some Idle,
                server := \<lparr>countries = Some [], countries_id_seq = first_id s\<rparr>\<rparr>"
  obtain res s2 where many: "executemany ?s1 df = (res, s2)"
    by (cases "executemany ?s1 df")
  with assms(3) save_data_connected [OF assms(1,2), of df] have "s' = s2"
    by (auto split: option.splits)
  moreover from executemany_committed [of ?s1 df] many have "countries (server s2) = Some []"
    by simp
  ultimately show ?thesis by simp
qed

lemma save_data_exception:
  assumes "conn s = Some c" and "c \<noteq> Failed"
  shows "fst (save_data s df) = first_failure (first_id s) df"
proof -
  let ?s1 = "s\<lparr>conn := Some Idle,
                server := \<lparr>countries = Some [], countries_id_seq = first_id s\<rparr>\<rparr>"
  have "fst (executemany ?s1 df) = first_failure (countries_id_seq (server ?s1)) df"
    by (rule executemany_result [of ?s1 Idle "[]"]) simp_all
  then show ?thesis
    using save_data_connected [OF assms, of df]
    by (cases "executemany ?s1 df") (auto split: option.splits)
qed

lemma save_data_success:
  assumes "conn s = Some c" and "c \<noteq> Failed" and "save_data s df = (None, s')"
  shows "\<exists>vs. map column_values df = map Inr vs \<and> (\<forall>r \<in> set df. \<not> has_nul r) \<and>
     s' = s\<lparr>conn := Some Idle,
            server := \<lparr>countries = Some (zip [first_id s..<first_id s + length df] vs),
                       countries_id_seq = first_id s + length df\<rparr>\<rparr>"
proof -
  let ?s1 = "s\<lparr>conn := Some Idle,
                server := \<lparr>countries = Some [], countries_id_seq = first_id s\<rparr>\<rparr>"
  obtain res s2 where many: "executemany ?s1 df = (res, s2)"
    by (cases "executemany ?s1 df")
  with assms(3) save_data_connected [OF assms(1,2), of df]
  have res: "res = None" and s': "s' = commit s2"
    by (auto split: option.splits)
  from save_data_exception [OF assms(1,2), of df] assms(3)
  have "first_failure (first_id s) df = None" by simp
  from first_failure_None [OF this] obtain vs
    where nn: "\<forall>r \<in> set df. \<not> has_nul r" and vs: "map column_values df = map Inr vs"
      and left: "ids_left (first_id s) (length df)"
    by blast
  from executemany_from_idle(2) [of ?s1 "[]" df vs] nn vs left many s'
  have "s' = s\<lparr>conn := Some Idle,
            server := \<lparr>countries = Some (zip [first_id s..<first_id s + length df] vs),
                       countries_id_seq = first_id s + length df\<rparr>\<rparr>"
    by simp
  with nn vs show ?thesis by blast
qed

lemma save_data_fitting:
  assumes "conn s = Some c" and "c \<noteq> Failed"
    and "\<forall>r \<in> set df. \<not> has_nul r" and "map column_values df = map Inr vs"
    and "ids_left (first_id s) (length df)"
  shows "save_data s df =
     (None, s\<lparr>conn := Some Idle,
              server := \<lparr>countries = Some (zip [first_id s..<first_id s + length df] vs),
                         countries_id_seq = first_id s + length df\<rparr>\<rparr>)"
proof -
  let ?s1 = "s\<lparr>conn := Some Idle,
                server := \<lparr>countries = Some [], countries_id_seq = first_id s\<rparr>\<rparr>"
  obtain res s2 where many: "executemany ?s1 df = (res, s2)"
    by (cases "executemany ?s1 df")
  from executemany_from_idle [of ?s1 "[]" df vs] assms(3,4,5) many
  have "res = None" and "commit s2 = s\<lparr>conn := Some Idle,
              server := \<lparr>countries = Some (zip [first_id s..<first_id s + length df] vs),
                         countries_id_seq = first_id s + length df\<rparr>\<rparr>"
    by simp_all
  with many save_data_connected [OF assms(1,2), of df] show ?thesis by simp
qed

lemma save_data_unusable:
  shows "conn s = None \<Longrightarrow> save_data s df = (Some (AttributeError ''cursor''), s)"
    and "conn s = Some Failed \<Longrightarrow> save_data s df = (Some InFailedSqlTransaction, s)"
  by (simp_all add: save_data_def init_db_def execute_def)

text \<open>
  The integer \<open>2 ^ 53 + 1\<close> is not a number that a double holds: it is stored as
  \<open>2 ^ 53\<close>. An insert that finds the sequence exhausted fails.
\<close>

lemma float8_inexact: "\<not> float8_exact 9007199254740993"
proof
  assume "float8_exact 9007199254740993"
  then obtain m e :: int where m: "\<bar>m\<bar> < 2 ^ 53"
    and x: "(9007199254740993 :: real) = real_of_int m * 2 powr real_of_int e"
    by (auto simp: float8_exact_def)
  show False
  proof (cases "e \<le> 0")
    case True
    then have "2 powr real_of_int e \<le> 2 powr 0"
      by (intro powr_mono) simp_all
    then have le1: "2 powr real_of_int e \<le> (1 :: real)" by simp
    have "\<bar>real_of_int m * 2 powr real_of_int e\<bar> = \<bar>real_of_int m\<bar> * 2 powr real_of_int e"
      by (simp add: abs_mult)
    also have "\<dots> \<le> \<bar>real_of_int m\<bar> * 1"
      by (intro mult_left_mono le1) simp
    also have "\<dots> < 2 ^ 53"
      using m by (metis mult.right_neutral of_int_abs of_int_less_numeral_power_cancel_iff)
    finally show False using x by simp
  next
    case False
    then obtain n where n: "e = int (Suc n)"
      by (metis not_le zero_less_imp_eq_int gr0_implies_Suc)
    have "2 powr real_of_int e = (2 :: real) powr real (Suc n)"
      unfolding n by (simp only: of_int_of_nat_eq)
    also have "\<dots> = 2 ^ Suc n"
      by (rule powr_realpow) simp
    finally have "2 powr real_of_int e = (2 :: real) ^ Suc n" .
    with x have "(9007199254740993 :: real) = real_of_int (m * 2 ^ Suc n)"
      by simp
    then have "(9007199254740993 :: int) = m * 2 ^ Suc n"
      by (metis of_int_eq_iff of_int_numeral)
    moreover have "even (m * 2 ^ Suc n)" by simp
    ultimately have "even (9007199254740993 :: int)" by (simp only:)
    then show False by simp
  qed
qed

lemma float8_rounds: "float8 9007199254740993 = Inr 9007199254740992"
proof -
  have fl: "\<lfloor>log 2 (9007199254740993 :: real)\<rfloor> = 53"
  proof -
    have "(2 :: real) powr real_of_int 53 = 2 ^ 53" 
      using powr_realpow [of "2 :: real" 53] by simp
    moreover have "(2 :: real) powr real_of_int (53 + 1) = 2 ^ 54"
      using powr_realpow [of "2 :: real" 54] by simp
    ultimately show ?thesis
      by (subst floor_log_eq_powr_iff) simp_all
  qed
  have p1: "(2 :: real) powr real_of_int 1 = 2" by simp
  have r: "round_half_even (9007199254740993 / 2) = 4503599627370496"
  proof -
    have f: "\<lfloor>9007199254740993 / 2 :: real\<rfloor> = 4503599627370496"
      by (rule floor_unique) simp_all
    show ?thesis
      by (simp add: round_half_even_def f Let_def)
  qed
  have "float8_nearest 9007199254740993 = 9007199254740992"
    by (simp add: float8_nearest_def fl Let_def r)
  then show ?thesis
    by (simp add: float8_def float8_inexact)
qed

lemma exhausted_sequence:
  "insert_error (Suc serial_max) chad = Some SequenceGeneratorLimitExceeded"
  by (simp add: insert_error_def column_values_def varchar_def bigint_def float8_numeral
      exc_bind_def has_nul_def chad_def)

lemma fits_column_values: "fits r \<Longrightarrow> column_values r = Inr r"
  by (cases "region r")
    (simp_all add: fits_def column_values_def varchar_def bigint_def float8_def exc_bind_def)

lemma fits_all_column_values:
  "\<forall>r \<in> set df. fits r \<Longrightarrow> map column_values df = map Inr df"
  by (simp add: fits_column_values)

lemma read_after_commit:
  assumes "conn s = Some Idle" and "countries (server s) = Some t"
  shows "get_all_data scan s = (Inr (map snd (scan t)), s\<lparr>conn := Some (Active (Some t))\<rparr>)"
  using assms by (simp add: get_all_data_def read_sql_query_def)

lemma map_snd_zip_upt: "length vs = k \<Longrightarrow> map snd (zip [n..<n + k] vs) = vs"
  by (simp add: map_snd_zip)

lemma map_fst_zip_upt: "length vs = k \<Longrightarrow> map fst (zip [n..<n + k] vs) = [n..<n + k]"
  by (simp add: map_fst_zip)

text \<open>The rules that evaluate the operations on the sample data.\<close>

lemmas db_eval =
  save_data_def init_db_def execute_def commit_def rollback_def get_all_data_def
  read_sql_query_def DatabaseManager_def connect_def always_up_def never_up_def
  no_table_def upt_rec create_and_truncate_def insert_row_def column_values_def
  varchar_def bigint_def float8_numeral float8_0 float8_1 serial_max_def exc_bind_def
  has_nul_def first_id_def

lemma loaded_state:
  "loaded = \<lparr>conn = Some Idle, events = [Attempt],
             server = \<lparr>countries = Some [(1, chad), (2, fiji)], countries_id_seq = 3\<rparr>\<rparr>"
  by (simp add: loaded_def db_eval chad_def fiji_def)

lemma aborted_state:
  "aborted = \<lparr>conn = Some Failed, events = [Attempt],
              server = \<lparr>countries = Some [], countries_id_seq = 4\<rparr>\<rparr>"
  by (simp add: aborted_def loaded_state db_eval chad_def fiji_def long_name_def)

text \<open>
  C3. \<^verbatim>\<open>save_data\<close> runs two transactions: \<^verbatim>\<open>init_db\<close> commits the creation and
  truncation of the table, and the bulk insert follows in a transaction of its own.
  On a manager without a connection, and on a connection whose transaction is aborted,
  \<^verbatim>\<open>save_data\<close> raises before it changes anything (\<open>AttributeError\<close>, respectively
  \<open>InFailedSqlTransaction\<close>) and leaves the manager and the table as they were. On any
  other connection the insert is atomic: either \<^verbatim>\<open>save_data\<close> returns and the
  committed table holds the stored values of all records, or the exception raised by
  the first failing \<open>INSERT\<close> surfaces as it is and no record is committed. In this
  second case the committed table is empty, not what it was before the call.
\<close>

theorem save_data_two_transactions:
  "(conn s = None \<longrightarrow> save_data s df = (Some (AttributeError ''cursor''), s))
   \<and> (conn s = Some Failed \<longrightarrow> save_data s df = (Some InFailedSqlTransaction, s))
   \<and> (\<forall>c. conn s = Some c \<and> c \<noteq> Failed \<longrightarrow>
          init_db s =
            (None, s\<lparr>conn := Some Idle,
                      server := \<lparr>countries = Some [], countries_id_seq = first_id s\<rparr>\<rparr>)
          \<and> fst (save_data s df) = first_failure (first_id s) df
          \<and> (first_failure (first_id s) df = None \<longrightarrow>
                (\<exists>vs. map column_values df = map Inr vs
                   \<and> countries (server (snd (save_data s df))) =
                       Some (zip [first_id s..<first_id s + length df] vs)))
          \<and> (first_failure (first_id s) df \<noteq> None \<longrightarrow>
                countries (server (snd (save_data s df))) = Some []))"
proof (intro conjI allI impI)
  assume "conn s = None"
  then show "save_data s df = (Some (AttributeError ''cursor''), s)"
    by (rule save_data_unusable(1))
next
  assume "conn s = Some Failed"
  then show "save_data s df = (Some InFailedSqlTransaction, s)"
    by (rule save_data_unusable(2))
next
  fix c
  assume "conn s = Some c \<and> c \<noteq> Failed"
  then have c: "conn s = Some c" and nf: "c \<noteq> Failed" by simp_all
  show "init_db s =
      (None, s\<lparr>conn := Some Idle,
                server := \<lparr>countries = Some [], countries_id_seq = first_id s\<rparr>\<rparr>)"
    by (rule init_db_connected [OF c nf])
  show exc: "fst (save_data s df) = first_failure (first_id s) df"
    by (rule save_data_exception [OF c nf])
  obtain res s' where sd: "save_data s df = (res, s')"
    by (cases "save_data s df")
  {
    assume "first_failure (first_id s) df = None"
    with exc sd have "save_data s df = (None, s')" by simp
    from save_data_success [OF c nf this] sd
    show "\<exists>vs. map column_values df = map Inr vs
            \<and> countries (server (snd (save_data s df))) =
                Some (zip [first_id s..<first_id s + length df] vs)"
      by auto
  next
    assume "first_failure (first_id s) df \<noteq> None"
    with exc sd obtain e where "save_data s df = (Some e, s')" by auto
    from save_data_failure [OF c nf this] sd
    show "countries (server (snd (save_data s df))) = Some []"
      by simp
  }
qed

text \<open>
  C5. Full refresh: when \<^verbatim>\<open>save_data\<close> has stored a snapshot \<open>S1\<close> and then returns
  from storing a snapshot \<open>S2\<close> (empty or not), the table holds exactly \<open>length S2\<close>
  rows, the stored values of \<open>S2\<close>, and no row and no id of the rows of \<open>S1\<close> remains.
\<close>

theorem reload_replaces_snapshot:
  assumes "conn s0 = Some c" and "c \<noteq> Failed"
    and "save_data s0 S1 = (None, s1)" and "save_data s1 S2 = (None, s2)"
  shows "\<exists>t1 t2. countries (server s1) = Some t1 \<and> countries (server s2) = Some t2
           \<and> length t1 = length S1 \<and> length t2 = length S2
           \<and> set t1 \<inter> set t2 = {} \<and> set (map fst t1) \<inter> set (map fst t2) = {}
           \<and> map column_values S2 = map Inr (map snd t2)"
proof -
  let ?n = "first_id s0"
  from save_data_success [OF assms(1,2,3)] obtain vs1
    where vs1: "map column_values S1 = map Inr vs1"
      and s1: "s1 = s0\<lparr>conn := Some Idle,
            server := \<lparr>countries = Some (zip [?n..<?n + length S1] vs1),
                       countries_id_seq = ?n + length S1\<rparr>\<rparr>"
    by blast
  from s1 have c1: "conn s1 = Some Idle" and f1: "first_id s1 = ?n + length S1"
    by (simp_all add: first_id_def)
  from save_data_success [OF c1 _ assms(4)] f1 obtain vs2
    where vs2: "map column_values S2 = map Inr vs2"
      and s2: "countries (server s2) = Some (zip [?n + length S1..<?n + length S1 + length S2] vs2)"
    by auto
  let ?t1 = "zip [?n..<?n + length S1] vs1"
  let ?t2 = "zip [?n + length S1..<?n + length S1 + length S2] vs2"
  from vs1 have l1: "length vs1 = length S1" by (metis length_map)
  from vs2 have l2: "length vs2 = length S2" by (metis length_map)
  have ids1: "map fst ?t1 = [?n..<?n + length S1]" by (rule map_fst_zip_upt [OF l1])
  have ids2: "map fst ?t2 = [?n + length S1..<?n + length S1 + length S2]"
    by (rule map_fst_zip_upt [OF l2])
  have dis: "set (map fst ?t1) \<inter> set (map fst ?t2) = {}"
    unfolding ids1 ids2 by auto
  have dis': "set ?t1 \<inter> set ?t2 = {}"
  proof (rule ccontr)
    assume "set ?t1 \<inter> set ?t2 \<noteq> {}"
    then obtain row where "row \<in> set ?t1" and "row \<in> set ?t2" by blast
    then have "fst row \<in> set (map fst ?t1) \<inter> set (map fst ?t2)"
      by (metis IntI image_eqI set_map)
    with dis show False by simp
  qed
  have "map snd ?t2 = vs2" by (rule map_snd_zip_upt [OF l2])
  with vs2 have vals: "map column_values S2 = map Inr (map snd ?t2)" by simp
  from s1 have t1: "countries (server s1) = Some ?t1" by simp
  have len1: "length ?t1 = length S1" using l1 by simp
  have len2: "length ?t2 = length S2" using l2 by simp
  from t1 s2 len1 len2 dis' dis vals show ?thesis by blast
qed

text \<open>
  C6. Round trip: for a snapshot whose records fit the declared columns (the area
  among them: a number that a double holds), loaded on a usable connection while the id
  sequence still has a value for each record, \<^verbatim>\<open>save_data\<close> returns and
  \<^verbatim>\<open>get_all_data\<close> then returns as many records as were loaded, with the same six
  fields: the same multiset of records whatever the order of the scan, and the same
  sequence when the scan follows the heap.
\<close>

theorem load_then_read_round_trip:
  assumes "conn s = Some c" and "c \<noteq> Failed"
    and "\<forall>r \<in> set df. fits r"
    and "ids_left (first_id s) (length df)"
    and "\<forall>t. mset (scan t) = mset t"
  shows "\<exists>s' s'' out. save_data s df = (None, s') \<and> get_all_data scan s' = (Inr out, s'')
           \<and> length out = length df \<and> mset out = mset df
           \<and> ((\<forall>t. scan t = t) \<longrightarrow> out = df)"
proof -
  let ?n = "first_id s"
  let ?t = "zip [?n..<?n + length df] df"
  let ?s' = "s\<lparr>conn := Some Idle,
              server := \<lparr>countries = Some ?t, countries_id_seq = ?n + length df\<rparr>\<rparr>"
  from assms(3) have nn: "\<forall>r \<in> set df. \<not> has_nul r" by (simp add: fits_def)
  have sd: "save_data s df = (None, ?s')"
    by (rule save_data_fitting [OF assms(1,2) nn fits_all_column_values [OF assms(3)] assms(4)])
  have rd: "get_all_data scan ?s' = (Inr (map snd (scan ?t)), ?s'\<lparr>conn := Some (Active (Some ?t))\<rparr>)"
    by (rule read_after_commit) simp_all
  have sn: "map snd ?t = df" by (rule map_snd_zip_upt) simp
  have ms: "mset (map snd (scan ?t)) = mset df"
    by (metis mset_map assms(5) sn)
  then have len: "length (map snd (scan ?t)) = length df" by (metis size_mset)
  have "(\<forall>t. scan t = t) \<longrightarrow> map snd (scan ?t) = df" using sn by simp
  with sd rd ms len show ?thesis by blast
qed

theorem save_data_two_transactions_witness:
  "conn (DatabaseManager never_up no_table) = None
   \<and> save_data (DatabaseManager never_up no_table) [chad] =
       (Some (AttributeError ''cursor''), DatabaseManager never_up no_table)
   \<and> conn aborted = Some Failed
   \<and> save_data aborted [chad] = (Some InFailedSqlTransaction, aborted)
   \<and> conn loaded = Some Idle
   \<and> first_failure (first_id loaded) [fiji, long_name] = Some StringDataRightTruncation
   \<and> fst (save_data loaded [fiji, long_name]) = Some StringDataRightTruncation
   \<and> countries (server (snd (save_data loaded [fiji, long_name]))) = Some []
   \<and> first_failure (first_id loaded) [niger] = None
   \<and> fst (save_data loaded [niger]) = None
   \<and> countries (server (snd (save_data loaded [niger]))) = Some [(3, niger)]"
  using save_data_two_transactions [of "DatabaseManager never_up no_table" "[chad]"]
    save_data_two_transactions [of aborted "[chad]"]
    save_data_two_transactions [of loaded "[fiji, long_name]"]
    save_data_two_transactions [of loaded "[niger]"]
  by (simp add: loaded_state aborted_state db_eval insert_error_def
      chad_def fiji_def niger_def long_name_def)

text \<open>
  A failing insert after a committed snapshot of two rows: the exception surfaces, and
  the table is left empty.
\<close>

theorem load_not_atomic_counterexample:
  "countries (server loaded) = Some [(1, chad), (2, fiji)]
   \<and> fst (save_data loaded [fiji, long_name]) = Some StringDataRightTruncation
   \<and> countries (server (snd (save_data loaded [fiji, long_name]))) = Some []"
  by (simp add: loaded_state db_eval chad_def fiji_def long_name_def)

theorem reload_replaces_snapshot_witness:
  "save_data (DatabaseManager always_up no_table) [chad, fiji] = (None, loaded)
   \<and> countries (server loaded) = Some [(1, chad), (2, fiji)]
   \<and> fst (save_data loaded [niger]) = None
   \<and> countries (server (snd (save_data loaded [niger]))) = Some [(3, niger)]
   \<and> fst (save_data loaded []) = None
   \<and> countries (server (snd (save_data loaded []))) = Some []"
  using reload_replaces_snapshot [of "DatabaseManager always_up no_table" Idle
      "[chad, fiji]" loaded "[niger]" "snd (save_data loaded [niger])"]
    reload_replaces_snapshot [of "DatabaseManager always_up no_table" Idle
      "[chad, fiji]" loaded "[]" "snd (save_data loaded [])"]
  by (simp add: loaded_def db_eval chad_def fiji_def niger_def)

text \<open>
  A snapshot with a name of 256 characters: \<^verbatim>\<open>save_data\<close> raises, and the full read
  that follows returns no record. A snapshot with a name of 255 characters and a space:
  \<^verbatim>\<open>save_data\<close> returns, and the full read returns the name without the space.
\<close>

theorem round_trip_counterexample:
  "fst (save_data (DatabaseManager always_up no_table) [long_name]) = Some StringDataRightTruncation
   \<and> fst (get_all_data id (snd (save_data (DatabaseManager always_up no_table) [long_name]))) =
       Inl DatabaseError
   \<and> fst (save_data (DatabaseManager always_up no_table) [padded_name]) = None
   \<and> fst (get_all_data id (snd (save_data (DatabaseManager always_up no_table) [padded_name]))) =
       Inr [padded_name\<lparr>name := replicate 255 (CHR ''x'')\<rparr>]
   \<and> padded_name\<lparr>name := replicate 255 (CHR ''x'')\<rparr> \<noteq> padded_name"
  by (simp add: db_eval long_name_def padded_name_def)

theorem load_then_read_round_trip_witness:
  "conn (DatabaseManager always_up no_table) = Some Idle
   \<and> fits chad \<and> fits fiji
   \<and> ids_left (first_id (DatabaseManager always_up no_table)) (length [chad, fiji])
   \<and> fst (get_all_data id (snd (save_data (DatabaseManager always_up no_table) [chad, fiji]))) =
       Inr [chad, fiji]"
  using load_then_read_round_trip [of "DatabaseManager always_up no_table" Idle "[chad, fiji]" id]
  by (auto simp: fits_def has_nul_def chad_def fiji_def DatabaseManager_def connect_def
      always_up_def upt_rec float8_exact_numeral ids_left_def first_id_def no_table_def
      serial_max_def)

text \<open>
  C10. Order preservation: the \<open>i\<close>-th row of the frame of \<^verbatim>\<open>fetch_api_data\<close> is the
  normalisation of the \<open>i\<close>-th object of the source array; and when those rows are the
  records \<open>df\<close> and \<^verbatim>\<open>save_data\<close> returns from storing them, the \<open>i\<close>-th stored row
  holds the values of the \<open>i\<close>-th record under the id \<open>first_id s + i\<close>, so the ids
  ascend in the order of the fetch.
\<close>

theorem fetch_order_is_insertion_order:
  assumes "\<not> (400 \<le> status \<and> status < 600)"
    and "\<forall>item \<in> set items. country_object item"
    and "map record_of_tuple (rows (fst (fetch_api_data (Response status (Some (JArr items)))))) =
           map Some df"
    and "conn s = Some c" and "c \<noteq> Failed"
    and "save_data s df = (None, s')"
  shows "\<exists>t. countries (server s') = Some t \<and> length t = length items
           \<and> sorted_wrt (<) (map fst t)
           \<and> (\<forall>i < length items.
                 rows (fst (fetch_api_data (Response status (Some (JArr items))))) ! i =
                   normalize_spec (items ! i)
                 \<and> record_of_tuple (normalize_spec (items ! i)) = Some (df ! i)
                 \<and> column_values (df ! i) = Inr (snd (t ! i))
                 \<and> fst (t ! i) = first_id s + i)"
proof -
  let ?n = "first_id s"
  have fr: "rows (fst (fetch_api_data (Response status (Some (JArr items))))) =
      map normalize_spec items"
    using fetch_api_data_frame [OF assms(1,2)] by simp
  with assms(3) have typed: "map record_of_tuple (map normalize_spec items) = map Some df"
    by simp
  then have len: "length df = length items"
    by (metis length_map)
  from save_data_success [OF assms(4,5,6)] obtain vs
    where vs: "map column_values df = map Inr vs"
      and t: "countries (server s') = Some (zip [?n..<?n + length df] vs)"
    by auto
  let ?t = "zip [?n..<?n + length df] vs"
  from vs have lvs: "length vs = length df" by (metis length_map)
  have ids: "map fst ?t = [?n..<?n + length df]" by (rule map_fst_zip_upt [OF lvs])
  have "\<forall>i < length items.
          rows (fst (fetch_api_data (Response status (Some (JArr items))))) ! i =
            normalize_spec (items ! i)
          \<and> record_of_tuple (normalize_spec (items ! i)) = Some (df ! i)
          \<and> column_values (df ! i) = Inr (snd (?t ! i))
          \<and> fst (?t ! i) = ?n + i"
  proof (intro allI impI)
    fix i
    assume i: "i < length items"
    have a: "rows (fst (fetch_api_data (Response status (Some (JArr items))))) ! i =
        normalize_spec (items ! i)"
      using fr i by simp
    have "map record_of_tuple (map normalize_spec items) ! i = map Some df ! i"
      using typed by simp
    then have b: "record_of_tuple (normalize_spec (items ! i)) = Some (df ! i)"
      using i len by simp
    have "map column_values df ! i = map Inr vs ! i" using vs by simp
    then have "column_values (df ! i) = Inr (vs ! i)" using i len lvs by simp
    then have c: "column_values (df ! i) = Inr (snd (?t ! i))" using i len lvs by simp
    have d: "fst (?t ! i) = ?n + i" using i len lvs by simp
    from a b c d show "rows (fst (fetch_api_data (Response status (Some (JArr items))))) ! i =
            normalize_spec (items ! i)
          \<and> record_of_tuple (normalize_spec (items ! i)) = Some (df ! i)
          \<and> column_values (df ! i) = Inr (snd (?t ! i))
          \<and> fst (?t ! i) = ?n + i"
      by blast
  qed
  moreover have "length ?t = length items" using lvs len by simp
  moreover have "sorted_wrt (<) (map fst ?t)" unfolding ids by simp
  ultimately show ?thesis using t by blast
qed

theorem fetch_order_is_insertion_order_witness:
  "conn (DatabaseManager always_up no_table) = Some Idle
   \<and> map record_of_tuple (rows (fst (fetch_api_data (Response 200 (Some (JArr
        [JObj [(''name'', JObj [(''common'', JStr ''Chad'')]), (''cca2'', JStr ''TD''),
               (''cca3'', JStr ''TCD''), (''region'', JStr ''Africa''),
               (''population'', JInt 16425859), (''area'', JFloat 1284000)],
         JObj [(''name'', JObj [(''common'', JStr ''Fiji'')]), (''cca2'', JStr ''FJ''),
               (''cca3'', JStr ''FJI''), (''region'', JStr ''Oceania''),
               (''population'', JInt 896444), (''area'', JInt 18272)]])))))) =
       [Some chad, Some fiji]
   \<and> countries (server (snd (save_data (DatabaseManager always_up no_table) [chad, fiji]))) =
       Some [(1, chad), (2, fiji)]"
  using fetch_order_is_insertion_order [of 200
      "[JObj [(''name'', JObj [(''common'', JStr ''Chad'')]), (''cca2'', JStr ''TD''),
               (''cca3'', JStr ''TCD''), (''region'', JStr ''Africa''),
               (''population'', JInt 16425859), (''area'', JFloat 1284000)],
         JObj [(''name'', JObj [(''common'', JStr ''Fiji'')]), (''cca2'', JStr ''FJ''),
               (''cca3'', JStr ''FJI''), (''region'', JStr ''Oceania''),
               (''population'', JInt 896444), (''area'', JInt 18272)]]"
      "[chad, fiji]" "DatabaseManager always_up no_table" Idle
      "snd (save_data (DatabaseManager always_up no_table) [chad, fiji])"]
  by (simp add: fetch_api_data_def fetch_api_try_def http_json_def country_of_item_def
      db_eval chad_def fiji_def)

section \<open>Results about get_aggregated_stats\<close>

text \<open>The library's insertion sort is a stable sorting routine.\<close>

lemma stable_sort_key: "stable sort_key"
  by (simp add: stable_def sort_key_stable)

lemma sorts_sort_key: "sorts sort_key"
  by (simp add: sorts_def)

text \<open>
  The row numbered \<open>1\<close> in a non-empty partition is a row of the partition with the
  least key; under a stable sort it is the first such row of the partition.
\<close>

lemma sorts_nonempty:
  assumes "sorts srt" and "part \<noteq> []"
  shows "\<exists>row rest. srt key part = row # rest \<and> row \<in> set part
           \<and> (\<forall>r' \<in> set part. key row \<le> key r')"
proof -
  from assms(1) have m: "mset (srt key part) = mset part"
    and so: "sorted (map key (srt key part))"
    by (simp_all add: sorts_def)
  from m assms(2) have "srt key part \<noteq> []" by auto
  then obtain row rest where c: "srt key part = row # rest"
    by (cases "srt key part") auto
  from m have s: "set (srt key part) = set part" by (rule mset_eq_setD)
  with c have "row \<in> set part" by auto
  moreover have "\<forall>r' \<in> set part. key row \<le> key r'"
  proof
    fix r'
    assume "r' \<in> set part"
    with s c have "r' = row \<or> r' \<in> set rest" by auto
    with so c show "key row \<le> key r'" by auto
  qed
  ultimately show ?thesis using c by blast
qed

lemma row_number_1_minimal:
  assumes "sorts srt" and "part \<noteq> []"
  shows "\<exists>row \<in> set part. row_number_1 srt key part = Some row
           \<and> (\<forall>r' \<in> set part. key row \<le> key r')"
  using sorts_nonempty [OF assms, of key] by (auto simp: row_number_1_def)

lemma filter_Cons_find: "filter P xs = y # ys \<Longrightarrow> find P xs = Some y"
  by (induction xs) (auto split: if_splits)

lemma find_filter: "find P (filter Q xs) = find (\<lambda>x. Q x \<and> P x) xs"
  by (induction xs) auto

lemma row_number_1_stable:
  assumes "sorts srt" and "stable srt" and "part \<noteq> []"
  shows "row_number_1 srt key part = find (\<lambda>row. \<forall>r' \<in> set part. key row \<le> key r') part"
proof -
  from sorts_nonempty [OF assms(1,3), of key] obtain row rest
    where c: "srt key part = row # rest" and m: "row \<in> set part"
      and least: "\<forall>r' \<in> set part. key row \<le> key r'"
    by blast
  from assms(2) have "filter (\<lambda>x. key x = key row) (srt key part) =
      filter (\<lambda>x. key x = key row) part"
    by (simp add: stable_def)
  with c have "filter (\<lambda>x. key x = key row) part = row # filter (\<lambda>x. key x = key row) rest"
    by simp
  then have "find (\<lambda>x. key x = key row) part = Some row"
    by (rule filter_Cons_find)
  moreover have "find (\<lambda>x. key x = key row) part =
      find (\<lambda>x. \<forall>r' \<in> set part. key x \<le> key r') part"
  proof (rule find_cong [OF refl])
    fix x
    assume "x \<in> set part"
    with least m show "(key x = key row) = (\<forall>r' \<in> set part. key x \<le> key r')"
      by (metis order_antisym)
  qed
  ultimately show ?thesis using c by (simp add: row_number_1_def)
qed

lemma set_regions_of:
  "set (regions_of t) = {g. g \<noteq> [] \<and> (\<exists>row \<in> set t. region (snd row) = Some g)}"
proof (intro set_eqI iffI)
  fix g
  assume "g \<in> set (regions_of t)"
  then obtain row where "row \<in> set (eligible t)" and "region (snd row) = Some g"
    by (auto simp: regions_of_def split: option.splits)
  then have "g \<noteq> [] \<and> row \<in> set t \<and> region (snd row) = Some g"
    by (auto simp: eligible_def)
  then show "g \<in> {g. g \<noteq> [] \<and> (\<exists>row \<in> set t. region (snd row) = Some g)}"
    by blast
next
  fix g
  assume "g \<in> {g. g \<noteq> [] \<and> (\<exists>row \<in> set t. region (snd row) = Some g)}"
  then obtain row where "g \<noteq> []" and "row \<in> set t" and r: "region (snd row) = Some g"
    by blast
  then have "row \<in> set (eligible t)"
    by (simp add: eligible_def)
  with r show "g \<in> set (regions_of t)"
    by (force simp: regions_of_def)
qed

lemma distinct_regions_of: "distinct (regions_of t)"
  by (simp add: regions_of_def)

lemma partition_of_eligible:
  "g \<noteq> [] \<Longrightarrow> partition_of g (eligible t) = partition_of g t"
  by (auto simp: partition_of_def eligible_def intro: filter_cong)

lemma partition_of_nonempty:
  "g \<in> set (regions_of t) \<Longrightarrow> partition_of g t \<noteq> []"
  by (auto simp: set_regions_of partition_of_def filter_empty_conv)

lemma summary_region_summary_of: "summary_region (summary_of srt t g) = g"
  by (simp add: summary_of_def Let_def)

lemma mset_aggregate_query:
  "sorts srt2 \<Longrightarrow>
   mset (aggregate_query srt srt2 t) = mset (map (summary_of srt (eligible t)) (regions_of t))"
  by (simp add: aggregate_query_def sorts_def)

lemma regions_aggregate_query:
  assumes "sorts srt2"
  shows "mset (map summary_region (aggregate_query srt srt2 t)) = mset (regions_of t)"
proof -
  have "mset (map summary_region (aggregate_query srt srt2 t)) =
      image_mset summary_region (mset (aggregate_query srt srt2 t))"
    by simp
  also have "\<dots> = image_mset summary_region (mset (map (summary_of srt (eligible t)) (regions_of t)))"
    by (simp only: mset_aggregate_query [OF assms])
  also have "\<dots> = mset (map (\<lambda>g. summary_region (summary_of srt (eligible t) g)) (regions_of t))"
    by (simp add: image_mset.compositionality comp_def)
  also have "\<dots> = mset (regions_of t)"
    by (simp add: summary_region_summary_of)
  finally show ?thesis .
qed

lemma aggregate_query_descending:
  "sorts srt2 \<Longrightarrow> sorted_wrt (\<ge>) (map total_population (aggregate_query srt srt2 t))"
proof -
  assume "sorts srt2"
  then have "sorted (map (\<lambda>g. - total_population g) (aggregate_query srt srt2 t))"
    by (simp add: aggregate_query_def sorts_def)
  then show ?thesis
    by (simp add: sorted_wrt_map)
qed

lemma aggregate_query_member:
  assumes "sorts srt2" and "sm \<in> set (aggregate_query srt srt2 t)"
  shows "summary_region sm \<in> set (regions_of t)
         \<and> sm = summary_of srt (partition_of (summary_region sm) t) (summary_region sm)"
proof -
  from mset_aggregate_query [OF assms(1), of srt t]
  have "set (aggregate_query srt srt2 t) = set (map (summary_of srt (eligible t)) (regions_of t))"
    by (rule mset_eq_setD)
  with assms(2) obtain g where g: "g \<in> set (regions_of t)" and sm: "sm = summary_of srt (eligible t) g"
    by auto
  from sm have r: "summary_region sm = g" by (simp add: summary_region_summary_of)
  from g have "g \<noteq> []" by (simp add: set_regions_of)
  then have p: "partition_of g (eligible t) = partition_of g t" by (rule partition_of_eligible)
  have "partition_of g (partition_of g t) = partition_of g t"
    by (simp add: partition_of_def)
  with p sm have "sm = summary_of srt (partition_of g t) g"
    by (simp add: summary_of_def Let_def)
  with g r show ?thesis by simp
qed

lemma summary_of_extremes:
  assumes "partition_of g part = part" and "sorts srt" and "part \<noteq> []"
  shows "\<exists>row \<in> set part.
           largest_country (summary_of srt part g) = Some (name (snd row))
           \<and> largest_population (summary_of srt part g) = Some (population (snd row))
           \<and> (\<forall>row' \<in> set (partition_of g part). population (snd row') \<le> population (snd row))"
    and "\<exists>row \<in> set part.
           smallest_country (summary_of srt part g) = Some (name (snd row))
           \<and> smallest_population (summary_of srt part g) = Some (population (snd row))
           \<and> (\<forall>row' \<in> set (partition_of g part). population (snd row) \<le> population (snd row'))"
proof -
  from row_number_1_minimal [OF assms(2,3), of "\<lambda>row. - population (snd row)"]
  obtain row where "row \<in> set part"
    and "row_number_1 srt (\<lambda>row. - population (snd row)) part = Some row"
    and "\<forall>r' \<in> set part. population (snd r') \<le> population (snd row)"
    by auto
  then show "\<exists>row \<in> set part.
           largest_country (summary_of srt part g) = Some (name (snd row))
           \<and> largest_population (summary_of srt part g) = Some (population (snd row))
           \<and> (\<forall>row' \<in> set (partition_of g part). population (snd row') \<le> population (snd row))"
    using assms(1) by (auto simp: summary_of_def Let_def)
  from row_number_1_minimal [OF assms(2,3), of "\<lambda>row. population (snd row)"]
  obtain row where "row \<in> set part"
    and "row_number_1 srt (\<lambda>row. population (snd row)) part = Some row"
    and "\<forall>r' \<in> set part. population (snd row) \<le> population (snd r')"
    by auto
  then show "\<exists>row \<in> set part.
           smallest_country (summary_of srt part g) = Some (name (snd row))
           \<and> smallest_population (summary_of srt part g) = Some (population (snd row))
           \<and> (\<forall>row' \<in> set (partition_of g part). population (snd row) \<le> population (snd row'))"
    using assms(1) by (auto simp: summary_of_def Let_def)
qed

lemma get_aggregated_stats_idle:
  assumes "conn s = Some Idle" and "countries (server s) = Some t"
  shows "get_aggregated_stats srt srt2 s =
           (Inr (aggregate_query srt srt2 t), s\<lparr>conn := Some (Active (Some t))\<rparr>)"
    and "get_aggregated_stats srt srt2 (s\<lparr>conn := Some (Active (Some t))\<rparr>) =
           (Inr (aggregate_query srt srt2 t), s\<lparr>conn := Some (Active (Some t))\<rparr>)"
  using assms by (simp_all add: get_aggregated_stats_def read_sql_query_def)

text \<open>
  C1. For every stored table \<open>t\<close> and every sorting routine of the engine,
  \<^verbatim>\<open>get_aggregated_stats\<close> returns one summary per distinct region that is neither
  \<open>NULL\<close> nor empty, and no other; the total of a summary is the sum of the
  populations of the rows of its region; its largest country and population are those
  of a row of the region with the greatest population, its smallest those of a row
  with the least; the summaries descend in their totals; and without a row of a
  non-empty region the result is empty.
\<close>

theorem aggregated_stats_per_region:
  assumes "sorts srt" and "sorts srt2"
    and "conn s = Some Idle" and "countries (server s) = Some t"
  shows "\<exists>res. fst (get_aggregated_stats srt srt2 s) = Inr res
     \<and> distinct (map summary_region res)
     \<and> set (map summary_region res) = {g. g \<noteq> [] \<and> (\<exists>row \<in> set t. region (snd row) = Some g)}
     \<and> (\<forall>sm \<in> set res.
           total_population sm =
             sum_list (map (\<lambda>row. population (snd row)) (partition_of (summary_region sm) t))
           \<and> (\<exists>row \<in> set (partition_of (summary_region sm) t).
                 largest_country sm = Some (name (snd row))
                 \<and> largest_population sm = Some (population (snd row))
                 \<and> (\<forall>row' \<in> set (partition_of (summary_region sm) t).
                       population (snd row') \<le> population (snd row)))
           \<and> (\<exists>row \<in> set (partition_of (summary_region sm) t).
                 smallest_country sm = Some (name (snd row))
                 \<and> smallest_population sm = Some (population (snd row))
                 \<and> (\<forall>row' \<in> set (partition_of (summary_region sm) t).
                       population (snd row) \<le> population (snd row'))))
     \<and> sorted_wrt (\<ge>) (map total_population res)
     \<and> ((\<forall>row \<in> set t. region (snd row) = None \<or> region (snd row) = Some []) \<longrightarrow> res = [])"
proof -
  let ?res = "aggregate_query srt srt2 t"
  have run: "fst (get_aggregated_stats srt srt2 s) = Inr ?res"
    using get_aggregated_stats_idle(1) [OF assms(3,4)] by simp
  have m: "mset (map summary_region ?res) = mset (regions_of t)"
    by (rule regions_aggregate_query [OF assms(2)])
  have d: "distinct (map summary_region ?res)"
    using mset_eq_imp_distinct_iff [OF m] distinct_regions_of by blast
  have r: "set (map summary_region ?res) =
      {g. g \<noteq> [] \<and> (\<exists>row \<in> set t. region (snd row) = Some g)}"
    using mset_eq_setD [OF m] set_regions_of by blast
  have each: "\<forall>sm \<in> set ?res.
           total_population sm =
             sum_list (map (\<lambda>row. population (snd row)) (partition_of (summary_region sm) t))
           \<and> (\<exists>row \<in> set (partition_of (summary_region sm) t).
                 largest_country sm = Some (name (snd row))
                 \<and> largest_population sm = Some (population (snd row))
                 \<and> (\<forall>row' \<in> set (partition_of (summary_region sm) t).
                       population (snd row') \<le> population (snd row)))
           \<and> (\<exists>row \<in> set (partition_of (summary_region sm) t).
                 smallest_country sm = Some (name (snd row))
                 \<and> smallest_population sm = Some (population (snd row))
                 \<and> (\<forall>row' \<in> set (partition_of (summary_region sm) t).
                       population (snd row) \<le> population (snd row')))"
  proof
    fix sm
    assume "sm \<in> set ?res"
    from aggregate_query_member [OF assms(2) this]
    have g: "summary_region sm \<in> set (regions_of t)"
      and sm: "sm = summary_of srt (partition_of (summary_region sm) t) (summary_region sm)"
      by simp_all
    let ?g = "summary_region sm"
    let ?part = "partition_of ?g t"
    have ne: "?part \<noteq> []" by (rule partition_of_nonempty [OF g])
    have idem: "partition_of ?g ?part = ?part" by (simp add: partition_of_def)
    have tot: "total_population (summary_of srt ?part ?g) =
        sum_list (map (\<lambda>row. population (snd row)) ?part)"
      using idem by (simp add: summary_of_def Let_def)
    from summary_of_extremes [OF idem assms(1) ne] tot idem
    have "total_population (summary_of srt ?part ?g) =
             sum_list (map (\<lambda>row. population (snd row)) ?part)
           \<and> (\<exists>row \<in> set ?part.
                 largest_country (summary_of srt ?part ?g) = Some (name (snd row))
                 \<and> largest_population (summary_of srt ?part ?g) = Some (population (snd row))
                 \<and> (\<forall>row' \<in> set ?part. population (snd row') \<le> population (snd row)))
           \<and> (\<exists>row \<in> set ?part.
                 smallest_country (summary_of srt ?part ?g) = Some (name (snd row))
                 \<and> smallest_population (summary_of srt ?part ?g) = Some (population (snd row))
                 \<and> (\<forall>row' \<in> set ?part. population (snd row) \<le> population (snd row')))"
      by simp
    with sm show "total_population sm =
             sum_list (map (\<lambda>row. population (snd row)) (partition_of (summary_region sm) t))
           \<and> (\<exists>row \<in> set (partition_of (summary_region sm) t).
                 largest_country sm = Some (name (snd row))
                 \<and> largest_population sm = Some (population (snd row))
                 \<and> (\<forall>row' \<in> set (partition_of (summary_region sm) t).
                       population (snd row') \<le> population (snd row)))
           \<and> (\<exists>row \<in> set (partition_of (summary_region sm) t).
                 smallest_country sm = Some (name (snd row))
                 \<and> smallest_population sm = Some (population (snd row))
                 \<and> (\<forall>row' \<in> set (partition_of (summary_region sm) t).
                       population (snd row) \<le> population (snd row')))"
      by metis
  qed
  have so: "sorted_wrt (\<ge>) (map total_population ?res)"
    by (rule aggregate_query_descending [OF assms(2)])
  have emp: "(\<forall>row \<in> set t. region (snd row) = None \<or> region (snd row) = Some []) \<longrightarrow> ?res = []"
  proof
    assume "\<forall>row \<in> set t. region (snd row) = None \<or> region (snd row) = Some []"
    then have "set (map summary_region ?res) = {}"
      unfolding r by auto
    then show "?res = []" by simp
  qed
  from run d r each so emp show ?thesis by blast
qed

theorem aggregated_stats_per_region_witness:
  "sorts (sort_key :: stored_row sorter) \<and> sorts (sort_key :: region_summary sorter)
   \<and> conn no_region = Some Idle
   \<and> countries (server no_region) =
       Some [(1, country ''D'' None 5), (2, country ''E'' (Some []) 7)]
   \<and> fst (get_aggregated_stats sort_key sort_key no_region) = Inr []
   \<and> conn two_regions = Some Idle
   \<and> map snd (case countries (server two_regions) of None \<Rightarrow> [] | Some t \<Rightarrow> t) =
       [country ''A'' (Some ''X'') 10, country ''B'' (Some ''X'') 20, country ''C'' (Some ''X'') 30,
        country ''D'' None 5, country ''E'' (Some []) 7, country ''F'' (Some ''Y'') 100]
   \<and> fst (get_aggregated_stats sort_key sort_key two_regions) =
       Inr [\<lparr>summary_region = ''Y'', total_population = 100,
              largest_country = Some ''F'', largest_population = Some 100,
              smallest_country = Some ''F'', smallest_population = Some 100\<rparr>,
            \<lparr>summary_region = ''X'', total_population = 60,
              largest_country = Some ''C'', largest_population = Some 30,
              smallest_country = Some ''A'', smallest_population = Some 10\<rparr>]"
proof -
  have st: "two_regions = \<lparr>conn = Some Idle, events = [Attempt],
      server = \<lparr>countries =
        Some [(1, country ''A'' (Some ''X'') 10), (2, country ''B'' (Some ''X'') 20),
              (3, country ''C'' (Some ''X'') 30), (4, country ''D'' None 5),
              (5, country ''E'' (Some []) 7), (6, country ''F'' (Some ''Y'') 100)],
        countries_id_seq = 7\<rparr>\<rparr>"
    by (simp add: two_regions_def db_eval country_def)
  have st': "no_region = \<lparr>conn = Some Idle, events = [Attempt],
      server = \<lparr>countries =
        Some [(1, country ''D'' None 5), (2, country ''E'' (Some []) 7)],
        countries_id_seq = 3\<rparr>\<rparr>"
    by (simp add: no_region_def db_eval country_def)
  have c: "conn two_regions = Some Idle" by (simp add: st)
  have t: "countries (server two_regions) =
      Some [(1, country ''A'' (Some ''X'') 10), (2, country ''B'' (Some ''X'') 20),
            (3, country ''C'' (Some ''X'') 30), (4, country ''D'' None 5),
            (5, country ''E'' (Some []) 7), (6, country ''F'' (Some ''Y'') 100)]"
    by (simp add: st)
  have r: "fst (get_aggregated_stats sort_key sort_key two_regions) =
       Inr [\<lparr>summary_region = ''Y'', total_population = 100,
              largest_country = Some ''F'', largest_population = Some 100,
              smallest_country = Some ''F'', smallest_population = Some 100\<rparr>,
            \<lparr>summary_region = ''X'', total_population = 60,
              largest_country = Some ''C'', largest_population = Some 30,
              smallest_country = Some ''A'', smallest_population = Some 10\<rparr>]"
    unfolding st by code_simp
  have c': "conn no_region = Some Idle" by (simp add: st')
  have t': "countries (server no_region) =
      Some [(1, country ''D'' None 5), (2, country ''E'' (Some []) 7)]"
    by (simp add: st')
  have "region (country ''D'' None 5) = None" and "region (country ''E'' (Some []) 7) = Some []"
    by (simp_all add: country_def)
  with aggregated_stats_per_region [OF sorts_sort_key sorts_sort_key c' t']
  have r': "fst (get_aggregated_stats sort_key sort_key no_region) = Inr []"
    by auto
  from aggregated_stats_per_region [OF sorts_sort_key sorts_sort_key c t] c t r c' t' r'
  show ?thesis by (simp add: sorts_sort_key)
qed

text \<open>
  The query's \<open>ORDER BY population\<close> names no second key, so which of several rows with
  the same population is numbered \<open>1\<close> is up to the sort of the engine. Under a stable
  sort the largest (smallest) country of a region is the first row in insertion order
  among its rows of greatest (least) population.
\<close>

lemma stable_sort_picks_first_inserted:
  assumes "sorts srt" and "stable srt" and "sorts srt2"
    and "sm \<in> set (aggregate_query srt srt2 t)"
  shows "largest_country sm =
           map_option (\<lambda>row. name (snd row))
             (find (\<lambda>row. region (snd row) = Some (summary_region sm)
                      \<and> (\<forall>row' \<in> set (partition_of (summary_region sm) t).
                            population (snd row') \<le> population (snd row))) t)"
    and "smallest_country sm =
           map_option (\<lambda>row. name (snd row))
             (find (\<lambda>row. region (snd row) = Some (summary_region sm)
                      \<and> (\<forall>row' \<in> set (partition_of (summary_region sm) t).
                            population (snd row) \<le> population (snd row'))) t)"
proof -
  from aggregate_query_member [OF assms(3,4)]
  have g: "summary_region sm \<in> set (regions_of t)"
    and sm: "sm = summary_of srt (partition_of (summary_region sm) t) (summary_region sm)"
    by simp_all
  let ?g = "summary_region sm"
  let ?part = "partition_of ?g t"
  have ne: "?part \<noteq> []" by (rule partition_of_nonempty [OF g])
  have idem: "partition_of ?g ?part = ?part" by (simp add: partition_of_def)
  have big: "largest_country (summary_of srt ?part ?g) =
      map_option (\<lambda>row. name (snd row))
        (find (\<lambda>row. \<forall>r' \<in> set ?part. - population (snd row) \<le> - population (snd r')) ?part)"
    using row_number_1_stable [OF assms(1,2) ne, of "\<lambda>row. - population (snd row)"] idem
    by (simp add: summary_of_def Let_def)
  have small: "smallest_country (summary_of srt ?part ?g) =
      map_option (\<lambda>row. name (snd row))
        (find (\<lambda>row. \<forall>r' \<in> set ?part. population (snd row) \<le> population (snd r')) ?part)"
    using row_number_1_stable [OF assms(1,2) ne, of "\<lambda>row. population (snd row)"] idem
    by (simp add: summary_of_def Let_def)
  have f1: "find (\<lambda>row. \<forall>r' \<in> set ?part. - population (snd row) \<le> - population (snd r')) ?part =
      find (\<lambda>row. region (snd row) = Some ?g
              \<and> (\<forall>row' \<in> set ?part. population (snd row') \<le> population (snd row))) t"
    unfolding partition_of_def find_filter by simp
  have f2: "find (\<lambda>row. \<forall>r' \<in> set ?part. population (snd row) \<le> population (snd r')) ?part =
      find (\<lambda>row. region (snd row) = Some ?g
              \<and> (\<forall>row' \<in> set ?part. population (snd row) \<le> population (snd row'))) t"
    unfolding partition_of_def find_filter by simp
  from big f1 sm show "largest_country sm =
           map_option (\<lambda>row. name (snd row))
             (find (\<lambda>row. region (snd row) = Some (summary_region sm)
                      \<and> (\<forall>row' \<in> set (partition_of (summary_region sm) t).
                            population (snd row') \<le> population (snd row))) t)"
    by metis
  from small f2 sm show "smallest_country sm =
           map_option (\<lambda>row. name (snd row))
             (find (\<lambda>row. region (snd row) = Some (summary_region sm)
                      \<and> (\<forall>row' \<in> set (partition_of (summary_region sm) t).
                            population (snd row) \<le> population (snd row'))) t)"
    by metis
qed

end
